theory Spec2Isabelle
  imports Main "HOL-Library.Word"
begin

unbundle bit_operations_syntax

section \<open>Machine integers and shared constants\<close>

type_synonym u8 = "8 word"
type_synonym u16 = "16 word"
type_synonym u32 = "32 word"

text \<open>
  ISO14443 timing constants of iso14443a.c. The macros are C integer
  expressions; they are kept as expressions and turned into words where they are used.
\<close>

definition REQUEST_GUARD_TIME :: u32 where
  "REQUEST_GUARD_TIME = word_of_int (7000 div 16 + 1)"

definition DELAY_AIR2ARM_AS_READER :: int where
  "DELAY_AIR2ARM_AS_READER = 3 + 16 + 8 + 8 * 16 + 4 * 16 - 8 * 16"

definition DELAY_ARM2AIR_AS_READER :: int where
  "DELAY_ARM2AIR_AS_READER = 4 * 16 + 8 * 16 + 8 + 8 + 1"

section \<open>Timing state of the reader side\<close>

text \<open>
  The file-level variables that the timing code reads and writes, as one record.
  \<open>ssp_clk\<close> is the hardware counter behind \<open>GetCountSspClk\<close>, \<open>ToSend\<close> the used
  part of the modulation buffer (\<open>ts->buf[0 .. ts->max)\<close>), \<open>ssc_thr\<close> the bytes written
  to the transmit holding register so far.
\<close>

record globals =
  iso14a_timeout :: u32
  NextTransferTime :: u32
  LastTimeProxToAirStart :: u32
  LastProxToAirDuration :: u32
  g_hf_field_active :: bool
  ssp_clk :: u32
  ToSend :: "u8 list"
  ssc_thr :: "u8 list"

definition iso14a_set_timeout :: "u32 \<Rightarrow> globals \<Rightarrow> globals" where
  "iso14a_set_timeout timeout g =
     g\<lparr>iso14a_timeout :=
         timeout + word_of_int ((DELAY_AIR2ARM_AS_READER + DELAY_ARM2AIR_AS_READER) div 128) + 2\<rparr>"

definition iso14a_get_timeout :: "globals \<Rightarrow> u32" where
  "iso14a_get_timeout g =
     iso14a_timeout g
       - word_of_int ((DELAY_AIR2ARM_AS_READER + DELAY_ARM2AIR_AS_READER) div 128) - 2"

text \<open>
  Modelled from the spec: \<open>GetCountSspClk\<close> (ticks.c) is not among the sources. The spec
  gives it as a monotonic counter of ssp cycles; a read returns the counter, and one
  cycle passes before the next read.
\<close>

definition GetCountSspClk :: "globals \<Rightarrow> u32 \<times> globals" where
  "GetCountSspClk g = (ssp_clk g, g\<lparr>ssp_clk := ssp_clk g + 1\<rparr>)"

text \<open>The spin-wait \<open>while (GetCountSspClk() < target) {}\<close>.\<close>

function wait_SspClk :: "u32 \<Rightarrow> globals \<Rightarrow> globals" where
  "wait_SspClk target g =
     (if ssp_clk g < target then wait_SspClk target (snd (GetCountSspClk g))
      else snd (GetCountSspClk g))"
  by pat_completeness auto
termination
proof (relation "measure (\<lambda>(target, g). unat target - unat (ssp_clk g))")
  show "wf (measure (\<lambda>(target, g). unat target - unat (ssp_clk g)))" by simp
next
  fix target :: u32 and g :: globals
  assume lt: "ssp_clk g < target"
  then have "unat target - unat (ssp_clk g + 1) < unat target - unat (ssp_clk g)"
    by unat_arith
  then show "((target, snd (GetCountSspClk g)), (target, g))
      \<in> measure (\<lambda>(target, g). unat target - unat (ssp_clk g))"
    by (simp add: GetCountSspClk_def)
qed

text \<open>
  \<open>PrepareDelayedTransfer\<close>: shift the send buffer right by \<open>delay\<close> bits, after
  appending one zero byte.
\<close>

function bitmask_loop :: "nat \<Rightarrow> nat \<Rightarrow> u8 \<Rightarrow> u8" where
  "bitmask_loop i delay bitmask =
     (if i < delay then bitmask_loop (Suc i) delay (bitmask OR push_bit i 1) else bitmask)"
  by pat_completeness auto
termination
  by (relation "measure (\<lambda>(i, delay, bitmask). delay - i)") auto

fun shift_loop :: "nat \<Rightarrow> u8 \<Rightarrow> u8 \<Rightarrow> u8 list \<Rightarrow> u8 list" where
  "shift_loop delay bitmask bits_shifted [] = []"
| "shift_loop delay bitmask bits_shifted (b # buf) =
     (drop_bit delay b OR push_bit (8 - delay) bits_shifted)
       # shift_loop delay bitmask (b AND bitmask) buf"

definition PrepareDelayedTransfer :: "u16 \<Rightarrow> globals \<Rightarrow> globals" where
  "PrepareDelayedTransfer delay0 g =
     (let delay = unat (delay0 AND 0x07) in
      if delay = 0 then g
      else g\<lparr>ToSend := shift_loop delay (bitmask_loop 0 delay 0) 0 (ToSend g @ [0x00])\<rparr>)"

text \<open>
  Modelled from the spec: the macro \<open>MAX\<close> (common.h) is not among the sources. The spec
  uses it as the maximum of its two arguments; as a C macro it is
  \<open>(((a) > (b)) ? (a) : (b))\<close>, which evaluates the argument it yields a second time.
  In \<open>MAX(NextTransferTime, GetCountSspClk())\<close> the clock is therefore read once for the
  comparison and, when \<open>NextTransferTime\<close> is not the larger, once more for the value.
\<close>

definition MAX_NextTransferTime_clock :: "globals \<Rightarrow> u32 \<times> globals" where
  "MAX_NextTransferTime_clock g =
     (case GetCountSspClk g of (compared, ga) \<Rightarrow>
        if NextTransferTime ga > compared then (NextTransferTime ga, ga)
        else GetCountSspClk ga)"

text \<open>
  \<open>TransmitFor14443a(cmd, len, timing)\<close>. The pointer \<open>timing\<close> is an option: \<open>None\<close>
  is \<open>NULL\<close>, \<open>Some t\<close> points at the value \<open>t\<close>; the value left behind the pointer is
  returned with the state. The only caller passes \<open>ts->buf\<close> as \<open>cmd\<close>, so the bytes
  sent are read from \<open>ToSend\<close> (after the fine-tuning shift, as in C, where the shift
  works on the buffer \<open>cmd\<close> points to).
\<close>

definition TransmitFor14443a :: "nat \<Rightarrow> u32 option \<Rightarrow> globals \<Rightarrow> u32 option \<times> globals" where
  "TransmitFor14443a len timing g =
     (if \<not> g_hf_field_active g then (timing, g)
      else
        let (timing', g2) =
          (case timing of
             Some t \<Rightarrow>
               let (t', g1) =
                     (if t = 0
                      then (case GetCountSspClk g of (now, ga) \<Rightarrow> ((now + 8) AND 0xfffffff8, ga))
                      else (t, PrepareDelayedTransfer (ucast (t AND 0x00000007)) g));
                   gw = wait_SspClk (t' AND 0xfffffff8) g1
               in (Some t', gw\<lparr>LastTimeProxToAirStart := t'\<rparr>)
           | None \<Rightarrow>
               (case MAX_NextTransferTime_clock g of (m, ga) \<Rightarrow>
                  let ThisTransferTime = (m AND 0xfffffff8) + 8;
                      gw = wait_SspClk ThisTransferTime ga
                  in (None, gw\<lparr>LastTimeProxToAirStart := ThisTransferTime\<rparr>)));
            g3 = g2\<lparr>ssc_thr := ssc_thr g2 @ take len (ToSend g2)\<rparr>
        in (timing',
            g3\<lparr>NextTransferTime :=
                 max (NextTransferTime g3) (LastTimeProxToAirStart g3 + REQUEST_GUARD_TIME)\<rparr>))"

text \<open>Two concrete timing states used to evaluate \<open>TransmitFor14443a\<close>.\<close>

definition g_example :: globals where
  "g_example = \<lparr>iso14a_timeout = 0, NextTransferTime = 0, LastTimeProxToAirStart = 0,
     LastProxToAirDuration = 0, g_hf_field_active = True, ssp_clk = 103,
     ToSend = [0xC0, 0x0C, 0x00, 0x00], ssc_thr = []\<rparr>"

definition g_late :: globals where
  "g_late = \<lparr>iso14a_timeout = 0, NextTransferTime = 0xFFFFFF64, LastTimeProxToAirStart = 0,
     LastProxToAirDuration = 0, g_hf_field_active = True, ssp_clk = 0xFFFFFF00,
     ToSend = [0xC0, 0x0C, 0x00, 0x00], ssc_thr = []\<rparr>"

section \<open>Miller decoder (reader to tag)\<close>

text \<open>
  The decoder state \<open>tUart14a\<close>. The struct is declared in iso14443a.h, which is not
  among the sources; the field widths are those the code relies on (\<open>fourBits\<close> holds
  four sample bytes, \<open>syncBit\<close> is reset to 9999, \<open>parityBits\<close> holds 8 parity bits) and
  \<open>bitCount\<close> is the signed 16-bit counter of the header. The two buffers behind the
  pointers \<open>output\<close> and \<open>parity\<close> are lists that are updated in place; a write past
  the end of a list is dropped, where C would write out of bounds, and the theorems below
  state the buffer sizes they need.
\<close>

datatype uart_state =
    STATE_14A_UNSYNCD
  | STATE_14A_START_OF_COMMUNICATION
  | STATE_14A_MILLER_X
  | STATE_14A_MILLER_Z
  | STATE_14A_MILLER_Y

record tUart14a =
  Uart_state :: uart_state
  Uart_shiftReg :: u16
  Uart_bitCount :: u16
  Uart_len :: u16
  Uart_output_len :: u16
  Uart_posCnt :: u16
  Uart_syncBit :: u16
  Uart_parityBits :: u8
  Uart_parityLen :: u8
  Uart_fourBits :: u32
  Uart_startTime :: u32
  Uart_endTime :: u32
  Uart_output :: "u8 list"
  Uart_parity :: "u8 list"

definition Mod_Miller_LUT :: "bool list" where
  "Mod_Miller_LUT =
     [False, True, False, True, False, False, False, True,
      False, True, False, False, False, False, False, False]"

definition IsMillerModulationNibble1 :: "u32 \<Rightarrow> bool" where
  "IsMillerModulationNibble1 b = Mod_Miller_LUT ! unat (drop_bit 4 (b AND 0x000000F0))"

definition IsMillerModulationNibble2 :: "u32 \<Rightarrow> bool" where
  "IsMillerModulationNibble2 b = Mod_Miller_LUT ! unat (b AND 0x0000000F)"

definition Uart14aReset :: "tUart14a \<Rightarrow> tUart14a" where
  "Uart14aReset U =
     U\<lparr>Uart_state := STATE_14A_UNSYNCD,
       Uart_shiftReg := 0,
       Uart_bitCount := 0,
       Uart_len := 0,
       Uart_posCnt := 0,
       Uart_syncBit := 9999,
       Uart_parityBits := 0,
       Uart_parityLen := 0,
       Uart_fourBits := 0x00000000,
       Uart_startTime := 0,
       Uart_endTime := 0\<rparr>"

text \<open>
  \<open>Uart14aInit(d, n, par)\<close>: \<open>d\<close> and \<open>par\<close> are the contents of the two buffers the
  decoder is given. The fields that \<open>Uart14aReset\<close> overwrites start from zero here.
\<close>

definition Uart14aInit :: "u8 list \<Rightarrow> u16 \<Rightarrow> u8 list \<Rightarrow> tUart14a" where
  "Uart14aInit d n par =
     Uart14aReset
       \<lparr>Uart_state = STATE_14A_UNSYNCD, Uart_shiftReg = 0, Uart_bitCount = 0, Uart_len = 0,
        Uart_output_len = n, Uart_posCnt = 0, Uart_syncBit = 0, Uart_parityBits = 0,
        Uart_parityLen = 0, Uart_fourBits = 0, Uart_startTime = 0, Uart_endTime = 0,
        Uart_output = d, Uart_parity = par\<rparr>"

definition ISO14443A_STARTBIT_MASK :: u32 where
  "ISO14443A_STARTBIT_MASK = 0x07FFEF80"

definition ISO14443A_STARTBIT_PATTERN :: u32 where
  "ISO14443A_STARTBIT_PATTERN = 0x07FF8F80"

text \<open>The chain of eight \<open>if\<close>s that looks for the start bit at each of eight offsets.\<close>

definition Miller_find_sync :: "u32 \<Rightarrow> u16" where
  "Miller_find_sync fourBits =
     (if fourBits AND drop_bit 0 ISO14443A_STARTBIT_MASK = drop_bit 0 ISO14443A_STARTBIT_PATTERN then 7
      else if fourBits AND drop_bit 1 ISO14443A_STARTBIT_MASK = drop_bit 1 ISO14443A_STARTBIT_PATTERN then 6
      else if fourBits AND drop_bit 2 ISO14443A_STARTBIT_MASK = drop_bit 2 ISO14443A_STARTBIT_PATTERN then 5
      else if fourBits AND drop_bit 3 ISO14443A_STARTBIT_MASK = drop_bit 3 ISO14443A_STARTBIT_PATTERN then 4
      else if fourBits AND drop_bit 4 ISO14443A_STARTBIT_MASK = drop_bit 4 ISO14443A_STARTBIT_PATTERN then 3
      else if fourBits AND drop_bit 5 ISO14443A_STARTBIT_MASK = drop_bit 5 ISO14443A_STARTBIT_PATTERN then 2
      else if fourBits AND drop_bit 6 ISO14443A_STARTBIT_MASK = drop_bit 6 ISO14443A_STARTBIT_PATTERN then 1
      else if fourBits AND drop_bit 7 ISO14443A_STARTBIT_MASK = drop_bit 7 ISO14443A_STARTBIT_PATTERN then 0
      else 9999)"

text \<open>
  The block \<open>if (Uart.bitCount >= 9) { ... }\<close>, which the three data branches share word
  for word: store the byte, shift the parity bit in, and store a parity byte after every
  eighth data byte.
\<close>

definition Uart_full_byte :: "tUart14a \<Rightarrow> tUart14a" where
  "Uart_full_byte U =
     (if 9 \<le> sint (Uart_bitCount U) then
        let U1 = U\<lparr>Uart_output := (Uart_output U)[unat (Uart_len U) := ucast (Uart_shiftReg U AND 0xff)],
                   Uart_len := Uart_len U + 1\<rparr>;
            U2 = U1\<lparr>Uart_parityBits := push_bit 1 (Uart_parityBits U1)\<rparr>;
            U3 = U2\<lparr>Uart_parityBits :=
                     Uart_parityBits U2 OR ucast (drop_bit 8 (Uart_shiftReg U2) AND 0x01)\<rparr>;
            U4 = U3\<lparr>Uart_bitCount := 0, Uart_shiftReg := 0\<rparr>
        in if Uart_len U4 AND 0x0007 = 0
           then U4\<lparr>Uart_parity := (Uart_parity U4)[unat (Uart_parityLen U4) := Uart_parityBits U4],
                   Uart_parityLen := Uart_parityLen U4 + 1,
                   Uart_parityBits := 0\<rparr>
           else U4
      else U)"

text \<open>
  The end time written by the Z and X branches:
  \<open>Uart.startTime + 8 * (9 * Uart.len + Uart.bitCount + 1) - k\<close>.
\<close>

definition Uart_end_time :: "tUart14a \<Rightarrow> int \<Rightarrow> u32" where
  "Uart_end_time U k =
     Uart_startTime U + word_of_int (8 * (9 * uint (Uart_len U) + sint (Uart_bitCount U) + 1)) - word_of_int k"

text \<open>
  \<open>MillerDecoding(bit, non_real_time)\<close>; the sample byte \<open>bit\<close> is called
  \<open>bit_in\<close> here. The argument \<open>now\<close> is the value that
  \<open>GetCountSspClk()\<close> returns if the decoder asks for it. The result is the returned
  flag and the decoder state.
\<close>

definition MillerDecoding :: "u8 \<Rightarrow> u32 \<Rightarrow> u32 \<Rightarrow> tUart14a \<Rightarrow> bool \<times> tUart14a" where
  "MillerDecoding bit_in non_real_time now U0 =
     (if Uart_len U0 = Uart_output_len U0 then (True, U0)
      else
        let U = U0\<lparr>Uart_fourBits := push_bit 8 (Uart_fourBits U0) OR ucast bit_in\<rparr> in
        if Uart_state U = STATE_14A_UNSYNCD then
          let U1 = U\<lparr>Uart_syncBit := Miller_find_sync (Uart_fourBits U)\<rparr> in
          if Uart_syncBit U1 \<noteq> 9999 then
            let st = (if non_real_time \<noteq> 0 then non_real_time else now AND 0xfffffff8)
                       - ucast (Uart_syncBit U1)
            in (False, U1\<lparr>Uart_startTime := st, Uart_endTime := st,
                            Uart_state := STATE_14A_START_OF_COMMUNICATION\<rparr>)
          else (False, U1)
        else
          let w = drop_bit (unat (Uart_syncBit U)) (Uart_fourBits U) in
          if IsMillerModulationNibble1 w then
            if IsMillerModulationNibble2 w then (False, Uart14aReset U)
            else if Uart_state U = STATE_14A_MILLER_X then (False, Uart14aReset U)
            else
              let U1 = U\<lparr>Uart_bitCount := Uart_bitCount U + 1,
                         Uart_shiftReg := drop_bit 1 (Uart_shiftReg U),
                         Uart_state := STATE_14A_MILLER_Z\<rparr>;
                  U2 = U1\<lparr>Uart_endTime := Uart_end_time U1 6\<rparr>
              in (False, Uart_full_byte U2)
          else if IsMillerModulationNibble2 w then
            let U1 = U\<lparr>Uart_bitCount := Uart_bitCount U + 1,
                       Uart_shiftReg := drop_bit 1 (Uart_shiftReg U) OR 0x100,
                       Uart_state := STATE_14A_MILLER_X\<rparr>;
                U2 = U1\<lparr>Uart_endTime := Uart_end_time U1 2\<rparr>
            in (False, Uart_full_byte U2)
          else if Uart_state U = STATE_14A_MILLER_Z \<or> Uart_state U = STATE_14A_MILLER_Y then
            let U1 = U\<lparr>Uart_state := STATE_14A_UNSYNCD,
                       Uart_bitCount := Uart_bitCount U - 1,
                       Uart_shiftReg := push_bit 1 (Uart_shiftReg U)\<rparr>
            in if 0 < sint (Uart_bitCount U1) then
                 let U2 = U1\<lparr>Uart_shiftReg :=
                              drop_bit (nat (9 - sint (Uart_bitCount U1))) (Uart_shiftReg U1)\<rparr>;
                     U3 = U2\<lparr>Uart_output := (Uart_output U2)[unat (Uart_len U2) := ucast (Uart_shiftReg U2 AND 0xff)],
                                Uart_len := Uart_len U2 + 1\<rparr>;
                     U4 = U3\<lparr>Uart_parityBits := push_bit 1 (Uart_parityBits U3)\<rparr>;
                     U5 = U4\<lparr>Uart_parityBits :=
                              push_bit (8 - unat (Uart_len U4 AND 0x0007)) (Uart_parityBits U4)\<rparr>
                 in (True, U5\<lparr>Uart_parity := (Uart_parity U5)[unat (Uart_parityLen U5) := Uart_parityBits U5],
                                Uart_parityLen := Uart_parityLen U5 + 1\<rparr>)
               else
                 let U2 = (if Uart_len U1 AND 0x0007 \<noteq> 0 then
                             let V = U1\<lparr>Uart_parityBits :=
                                         push_bit (8 - unat (Uart_len U1 AND 0x0007)) (Uart_parityBits U1)\<rparr>
                             in V\<lparr>Uart_parity := (Uart_parity V)[unat (Uart_parityLen V) := Uart_parityBits V],
                                  Uart_parityLen := Uart_parityLen V + 1\<rparr>
                           else U1)
                 in if Uart_len U2 \<noteq> 0 then (True, U2) else (False, Uart14aReset U2)
          else if Uart_state U = STATE_14A_START_OF_COMMUNICATION then (False, Uart14aReset U)
          else
            let U1 = U\<lparr>Uart_bitCount := Uart_bitCount U + 1,
                       Uart_shiftReg := drop_bit 1 (Uart_shiftReg U),
                       Uart_state := STATE_14A_MILLER_Y\<rparr>
            in (False, Uart_full_byte U1))"

text \<open>
  The receive loops call \<open>MillerDecoding\<close> once per sample byte and stop at the first
  call that returns true. \<open>Miller_feed\<close> does so over a given list of sample bytes.
\<close>

fun Miller_feed :: "u8 list \<Rightarrow> tUart14a \<Rightarrow> bool \<times> tUart14a" where
  "Miller_feed [] U = (False, U)"
| "Miller_feed (b # bs) U =
     (case MillerDecoding b 0 0 U of
        (True, U') \<Rightarrow> (True, U')
      | (False, U') \<Rightarrow> Miller_feed bs U')"

text \<open>
  \<open>Uart_window\<close> is the value \<open>Uart.fourBits >> Uart.syncBit\<close> that a call with the
  sample byte \<open>bit_in\<close> classifies. \<open>Uart_example\<close> is a decoder with an 8-byte output
  buffer; \<open>Uart_after_SOC\<close> and \<open>Uart_after_X\<close> are the states it reaches on an idle
  field followed by the start of communication, and by one more Sequence X.
\<close>

definition Uart_example :: tUart14a where
  "Uart_example = Uart14aInit [0, 0, 0, 0, 0, 0, 0, 0] 8 [0, 0]"

definition Uart_after_SOC :: tUart14a where
  "Uart_after_SOC = snd (Miller_feed [0xFF, 0xFF, 0xFF, 0x3F] Uart_example)"

definition Uart_after_X :: tUart14a where
  "Uart_after_X = snd (Miller_feed [0xFF, 0xFF, 0xFF, 0x3F, 0xF3] Uart_example)"

text \<open>
  \<open>Uart_after_8_bits\<close> is the decoder after the eight data bits of the byte \<open>0xC0\<close>
  (six Sequence Z, two Sequence X): the next symbol is the parity bit, which is 1 for this
  byte. \<open>Uart_full\<close> is a decoder with a 1-byte output buffer after that byte and its
  parity bit: the buffer is used up.
\<close>

definition Uart_after_8_bits :: tUart14a where
  "Uart_after_8_bits =
     snd (Miller_feed [0xFF, 0xFF, 0xFF, 0x3F, 0x3F, 0x3F, 0x3F, 0x3F, 0x3F, 0x3F, 0xF3, 0xF3]
            Uart_example)"

definition Uart_full :: tUart14a where
  "Uart_full =
     snd (Miller_feed [0xFF, 0xFF, 0xFF, 0x3F, 0x3F, 0x3F, 0x3F, 0x3F, 0x3F, 0x3F, 0xF3, 0xF3, 0xF3]
            (Uart14aInit [0] 1 [0]))"

definition Uart_window :: "u8 \<Rightarrow> tUart14a \<Rightarrow> u32" where
  "Uart_window bit_in U =
     drop_bit (unat (Uart_syncBit U)) (push_bit 8 (Uart_fourBits U) OR ucast bit_in)"

section \<open>Manchester decoder (tag to reader)\<close>

text \<open>
  The decoder state \<open>tDemod14a\<close>, declared in iso14443a.h like \<open>tUart14a\<close>; here
  \<open>bitCount\<close> is unsigned. The buffers are handled as for the Miller decoder.
\<close>

datatype demod_state = DEMOD_14A_UNSYNCD | DEMOD_14A_MANCHESTER_DATA

record tDemod14a =
  Demod_state :: demod_state
  Demod_twoBits :: u16
  Demod_highCnt :: u16
  Demod_bitCount :: u16
  Demod_collisionPos :: u16
  Demod_syncBit :: u16
  Demod_parityBits :: u8
  Demod_parityLen :: u8
  Demod_shiftReg :: u16
  Demod_samples :: u16
  Demod_len :: u16
  Demod_output_len :: u16
  Demod_startTime :: u32
  Demod_endTime :: u32
  Demod_output :: "u8 list"
  Demod_parity :: "u8 list"

definition Mod_Manchester_LUT :: "bool list" where
  "Mod_Manchester_LUT =
     [False, False, False, False, False, False, False, True,
      False, False, False, True, False, True, True, True]"

definition IsManchesterModulationNibble1 :: "u16 \<Rightarrow> bool" where
  "IsManchesterModulationNibble1 b = Mod_Manchester_LUT ! unat (drop_bit 4 (b AND 0x00F0))"

definition IsManchesterModulationNibble2 :: "u16 \<Rightarrow> bool" where
  "IsManchesterModulationNibble2 b = Mod_Manchester_LUT ! unat (b AND 0x000F)"

definition Demod14aReset :: "tDemod14a \<Rightarrow> tDemod14a" where
  "Demod14aReset D =
     D\<lparr>Demod_state := DEMOD_14A_UNSYNCD,
       Demod_twoBits := 0xFFFF,
       Demod_highCnt := 0,
       Demod_bitCount := 0,
       Demod_collisionPos := 0,
       Demod_syncBit := 0xFFFF,
       Demod_parityBits := 0,
       Demod_parityLen := 0,
       Demod_shiftReg := 0,
       Demod_samples := 0,
       Demod_len := 0,
       Demod_startTime := 0,
       Demod_endTime := 0\<rparr>"

definition Demod14aInit :: "u8 list \<Rightarrow> u16 \<Rightarrow> u8 list \<Rightarrow> tDemod14a" where
  "Demod14aInit d n par =
     Demod14aReset
       \<lparr>Demod_state = DEMOD_14A_UNSYNCD, Demod_twoBits = 0, Demod_highCnt = 0,
        Demod_bitCount = 0, Demod_collisionPos = 0, Demod_syncBit = 0, Demod_parityBits = 0,
        Demod_parityLen = 0, Demod_shiftReg = 0, Demod_samples = 0, Demod_len = 0,
        Demod_output_len = n, Demod_startTime = 0, Demod_endTime = 0,
        Demod_output = d, Demod_parity = par\<rparr>"

definition Manchester_find_sync :: "u16 \<Rightarrow> u16" where
  "Manchester_find_sync twoBits =
     (if twoBits AND 0x7700 = 0x7000 then 7
      else if twoBits AND 0x3B80 = 0x3800 then 6
      else if twoBits AND 0x1DC0 = 0x1C00 then 5
      else if twoBits AND 0x0EE0 = 0x0E00 then 4
      else if twoBits AND 0x0770 = 0x0700 then 3
      else if twoBits AND 0x03B8 = 0x0380 then 2
      else if twoBits AND 0x01DC = 0x01C0 then 1
      else if twoBits AND 0x00EE = 0x00E0 then 0
      else 0xFFFF)"

text \<open>The block that stores a decoded byte and its parity bit, shared by the D and E branches.\<close>

definition Demod_store_byte :: "tDemod14a \<Rightarrow> tDemod14a" where
  "Demod_store_byte D =
     (let D1 = D\<lparr>Demod_output := (Demod_output D)[unat (Demod_len D) := ucast (Demod_shiftReg D AND 0xff)],
                 Demod_len := Demod_len D + 1\<rparr>;
          D2 = D1\<lparr>Demod_parityBits := push_bit 1 (Demod_parityBits D1)\<rparr>;
          D3 = D2\<lparr>Demod_parityBits :=
                   Demod_parityBits D2 OR ucast (drop_bit 8 (Demod_shiftReg D2) AND 0x01)\<rparr>;
          D4 = D3\<lparr>Demod_bitCount := 0, Demod_shiftReg := 0\<rparr>
      in if Demod_len D4 AND 0x0007 = 0
         then D4\<lparr>Demod_parity := (Demod_parity D4)[unat (Demod_parityLen D4) := Demod_parityBits D4],
                 Demod_parityLen := Demod_parityLen D4 + 1,
                 Demod_parityBits := 0\<rparr>
         else D4)"

text \<open>\<open>Demod.startTime + 8 * (9 * Demod.len + Demod.bitCount + 1) - k\<close>.\<close>

definition Demod_end_time :: "tDemod14a \<Rightarrow> int \<Rightarrow> u32" where
  "Demod_end_time D k =
     Demod_startTime D + word_of_int (8 * (9 * uint (Demod_len D) + uint (Demod_bitCount D) + 1)) - word_of_int k"

text \<open>The flush \<open>parityBits <<= (8 - (len & 7)); parity[parityLen++] = parityBits\<close>.\<close>

definition Demod_flush_parity :: "tDemod14a \<Rightarrow> tDemod14a" where
  "Demod_flush_parity D =
     (let D1 = D\<lparr>Demod_parityBits :=
                   push_bit (8 - unat (Demod_len D AND 0x0007)) (Demod_parityBits D)\<rparr>
      in D1\<lparr>Demod_parity := (Demod_parity D1)[unat (Demod_parityLen D1) := Demod_parityBits D1],
             Demod_parityLen := Demod_parityLen D1 + 1\<rparr>)"

text \<open>
  The part of the first-half branch that follows the collision check: "in both cases, add
  a 1 to the shiftreg", store the byte after the ninth bit, and set the end time.
\<close>

definition Demod_add_one :: "tDemod14a \<Rightarrow> tDemod14a" where
  "Demod_add_one D =
     (let D1 = D\<lparr>Demod_bitCount := Demod_bitCount D + 1,
                 Demod_shiftReg := drop_bit 1 (Demod_shiftReg D) OR 0x100\<rparr>;
          D2 = (if Demod_bitCount D1 = 9 then Demod_store_byte D1 else D1)
      in D2\<lparr>Demod_endTime := Demod_end_time D2 4\<rparr>)"

text \<open>
  \<open>ManchesterDecoding(bit, offset, non_real_time)\<close>, with \<open>bit_in\<close> and \<open>now\<close> as for
  \<open>MillerDecoding\<close>.
\<close>

definition ManchesterDecoding :: "u8 \<Rightarrow> u16 \<Rightarrow> u32 \<Rightarrow> u32 \<Rightarrow> tDemod14a \<Rightarrow> bool \<times> tDemod14a" where
  "ManchesterDecoding bit_in offset non_real_time now D0 =
     (if Demod_len D0 = Demod_output_len D0 then (True, Demod_flush_parity D0)
      else
        let D = D0\<lparr>Demod_twoBits := push_bit 8 (Demod_twoBits D0) OR ucast bit_in\<rparr> in
        if Demod_state D = DEMOD_14A_UNSYNCD then
          if Demod_highCnt D < 2 then
            if Demod_twoBits D = 0x0000
            then (False, D\<lparr>Demod_highCnt := Demod_highCnt D + 1\<rparr>)
            else (False, D\<lparr>Demod_highCnt := 0\<rparr>)
          else
            let D1 = D\<lparr>Demod_syncBit := Manchester_find_sync (Demod_twoBits D)\<rparr> in
            if Demod_syncBit D1 \<noteq> 0xFFFF then
              (False, D1\<lparr>Demod_startTime :=
                              (if non_real_time \<noteq> 0 then non_real_time else now AND 0xfffffff8)
                                - ucast (Demod_syncBit D1),
                            Demod_bitCount := offset,
                            Demod_state := DEMOD_14A_MANCHESTER_DATA\<rparr>)
            else (False, D1)
        else
          let w = drop_bit (unat (Demod_syncBit D)) (Demod_twoBits D) in
          if IsManchesterModulationNibble1 w then
            let D1 = (if IsManchesterModulationNibble2 w \<and> Demod_collisionPos D = 0
                      then D\<lparr>Demod_collisionPos := push_bit 3 (Demod_len D) + Demod_bitCount D\<rparr>
                      else D)
            in (False, Demod_add_one D1)
          else if IsManchesterModulationNibble2 w then
            let D1 = D\<lparr>Demod_bitCount := Demod_bitCount D + 1,
                       Demod_shiftReg := drop_bit 1 (Demod_shiftReg D)\<rparr>;
                D2 = (if 9 \<le> Demod_bitCount D1 then Demod_store_byte D1 else D1)
            in (False, D2\<lparr>Demod_endTime := Demod_end_time D2 0\<rparr>)
          else if 0 < Demod_bitCount D then
            let D1 = D\<lparr>Demod_shiftReg :=
                         drop_bit (9 - unat (Demod_bitCount D)) (Demod_shiftReg D)\<rparr>;
                D2 = D1\<lparr>Demod_output := (Demod_output D1)[unat (Demod_len D1) := ucast (Demod_shiftReg D1 AND 0xff)],
                          Demod_len := Demod_len D1 + 1\<rparr>;
                D3 = D2\<lparr>Demod_parityBits := push_bit 1 (Demod_parityBits D2)\<rparr>
            in (True, Demod_flush_parity D3)
          else
            let D1 = (if Demod_len D AND 0x0007 \<noteq> 0 then Demod_flush_parity D else D)
            in if Demod_len D1 \<noteq> 0 then (True, D1) else (False, Demod14aReset D1))"

fun Manchester_feed :: "u16 \<Rightarrow> u8 list \<Rightarrow> tDemod14a \<Rightarrow> bool \<times> tDemod14a" where
  "Manchester_feed offset [] D = (False, D)"
| "Manchester_feed offset (b # bs) D =
     (case ManchesterDecoding b offset 0 0 D of
        (True, D') \<Rightarrow> (True, D')
      | (False, D') \<Rightarrow> Manchester_feed offset bs D')"

text \<open>
  \<open>Demod_window\<close> is the value \<open>Demod.twoBits >> Demod.syncBit\<close> that a call classifies;
  \<open>Demod_example\<close> is a decoder with an 8-byte output buffer.
\<close>

definition Demod_window :: "u8 \<Rightarrow> tDemod14a \<Rightarrow> u16" where
  "Demod_window bit_in D =
     drop_bit (unat (Demod_syncBit D)) (push_bit 8 (Demod_twoBits D) OR ucast bit_in)"

definition Demod_example :: tDemod14a where
  "Demod_example = Demod14aInit [0, 0, 0, 0, 0, 0, 0, 0] 8 [0, 0]"

text \<open>
  The decoder after two unmodulated sample bytes and the start bit, and after one more
  Sequence D.
\<close>

definition Demod_after_start :: tDemod14a where
  "Demod_after_start = snd (Manchester_feed 0 [0x00, 0x00, 0x00, 0xF0] Demod_example)"

definition Demod_after_bit :: tDemod14a where
  "Demod_after_bit = snd (Manchester_feed 0 [0x00, 0x00, 0x00, 0xF0, 0xF0] Demod_example)"

text \<open>
  Two more running decoders: one synchronised at \<open>syncBit = 7\<close> whose sample window is
  such that every next sample byte shows modulation in both halves, and one that has
  decoded eight 1 bits and waits for the parity bit.
\<close>

definition Demod_skewed :: tDemod14a where
  "Demod_skewed = snd (Manchester_feed 0 [0x00, 0x00, 0x00, 0x70, 0x78, 0x7F] Demod_example)"

definition Demod_after_8_bits :: tDemod14a where
  "Demod_after_8_bits =
     snd (Manchester_feed 0 [0x00, 0x00, 0x00, 0xF0, 0xF0, 0xF0, 0xF0, 0xF0, 0xF0, 0xF0, 0xF0, 0xF0]
            Demod_example)"

section \<open>Reader side: CRC, parity and card selection\<close>

text \<open>
  Modelled from the spec: \<open>compute_crc\<close> (crc16.c), behind \<open>AddCrc14A\<close>, is not among the
  sources. The spec gives the CRC as CRC-16 of ISO/IEC 14443-3 type A with initial value
  0x6363, appended low byte first; \<open>update_crc16\<close> is the usual byte-wise step of that
  CRC. Two frames that iso14443a.c spells out with their CRC, \<open>{30 01 8B B9}\<close> and
  \<open>{E0 80 31 73}\<close>, are checked against it below.
\<close>

definition update_crc16 :: "u16 \<Rightarrow> u8 \<Rightarrow> u16" where
  "update_crc16 crc b0 =
     (let b1 = b0 XOR ucast (crc AND 0xFF);
          b2 = b1 XOR push_bit 4 b1
      in drop_bit 8 crc XOR push_bit 8 (ucast b2) XOR push_bit 3 (ucast b2) XOR drop_bit 4 (ucast b2))"

definition crc14a :: "u8 list \<Rightarrow> u16" where
  "crc14a data = foldl update_crc16 0x6363 data"

text \<open>\<open>AddCrc14A(data, len)\<close> writes the two CRC bytes at \<open>data[len]\<close> and \<open>data[len + 1]\<close>.\<close>

definition AddCrc14A :: "u8 list \<Rightarrow> nat \<Rightarrow> u8 list" where
  "AddCrc14A data len =
     (let crc = crc14a (take len data)
      in data[len := ucast (crc AND 0xFF), len + 1 := ucast (drop_bit 8 crc)])"

text \<open>\<open>memcpy(dst + off, src, n)\<close> on lists: bytes \<open>off .. off + n\<close> of \<open>dst\<close> are replaced.\<close>

definition memcpy_at :: "u8 list \<Rightarrow> nat \<Rightarrow> u8 list \<Rightarrow> nat \<Rightarrow> u8 list" where
  "memcpy_at dst off src n = take off dst @ take n src @ drop (off + n) dst"

text \<open>
  The part of \<open>iso14443a_select_cardEx\<close> that builds the full SELECT of one cascade level
  from \<open>uid_resp\<close> (lines "Construct SELECT UID command" to \<open>AddCrc14A\<close>). The result is
  \<open>Inl 0\<close> where the function returns 0, and otherwise the nine bytes handed to
  \<open>ReaderTransmit\<close>. \<open>forcebcc\<close> is the field of \<open>hf14aconfig\<close>.
\<close>

definition select_uid_command :: "int \<Rightarrow> bool \<Rightarrow> nat \<Rightarrow> u8 list \<Rightarrow> int + u8 list" where
  "select_uid_command forcebcc anticollision cascade_level uid_resp =
     (let sel_uid0 = [0x93 + 2 * of_nat cascade_level, 0x70, 0x00, 0x00, 0x00, 0x00, 0x00, 0x00, 0x00];
          sel_uid1 = sel_uid0[1 := 0x70]
      in if anticollision then
           let sel_uid2 = memcpy_at sel_uid1 2 uid_resp 5;
               bcc = sel_uid2 ! 2 XOR sel_uid2 ! 3 XOR sel_uid2 ! 4 XOR sel_uid2 ! 5
           in if sel_uid2 ! 6 \<noteq> bcc then
                if forcebcc = 0 then Inl 0
                else if forcebcc = 1 then Inr (AddCrc14A (sel_uid2[6 := bcc]) 7)
                else Inr (AddCrc14A sel_uid2 7)
              else Inr (AddCrc14A sel_uid2 7)
         else
           let sel_uid2 = memcpy_at sel_uid1 2 uid_resp 4;
               sel_uid3 = sel_uid2[6 := sel_uid2 ! 2 XOR sel_uid2 ! 3 XOR sel_uid2 ! 4 XOR sel_uid2 ! 5]
           in Inr (AddCrc14A sel_uid3 7))"

section \<open>Nonce distance of the darkside harness\<close>

text \<open>
  Modelled from the spec: \<open>prng_successor\<close> (the crapto1 library) is not among the
  sources. The spec describes it as the 16-bit LFSR that Mifare Classic uses to generate
  nonces, advanced by \<open>n\<close> steps. The definition is that LFSR, with feedback polynomial
  \<open>x^16 + x^14 + x^13 + x^11 + 1\<close>, stepped on the byte-swapped 32-bit nonce.
\<close>

definition SWAPENDIAN :: "u32 \<Rightarrow> u32" where
  "SWAPENDIAN x =
     (let x1 = (drop_bit 8 x AND 0xff00ff) OR push_bit 8 (x AND 0xff00ff)
      in drop_bit 16 x1 OR push_bit 16 x1)"

definition prng_step :: "u32 \<Rightarrow> u32" where
  "prng_step x =
     drop_bit 1 x OR push_bit 31 (drop_bit 16 x XOR drop_bit 18 x XOR drop_bit 19 x XOR drop_bit 21 x)"

fun prng_loop :: "nat \<Rightarrow> u32 \<Rightarrow> u32" where
  "prng_loop 0 x = x"
| "prng_loop (Suc n) x = prng_loop n (prng_step x)"

definition prng_successor :: "u32 \<Rightarrow> nat \<Rightarrow> u32" where
  "prng_successor x n = SWAPENDIAN (prng_loop n (SWAPENDIAN x))"

text \<open>
  \<open>dist_nt\<close>: the loop \<open>for (uint16_t i = 1; i < 32768; i++)\<close> with its two running
  nonces, and the function around it. The result is the \<open>int32_t\<close> return value.
\<close>

function dist_nt_loop :: "u32 \<Rightarrow> u32 \<Rightarrow> nat \<Rightarrow> u32 \<Rightarrow> u32 \<Rightarrow> int" where
  "dist_nt_loop nt1 nt2 i nttmp1 nttmp2 =
     (if i < 32768 then
        let nttmp1' = prng_successor nttmp1 1 in
        if nttmp1' = nt2 then int i
        else
          let nttmp2' = prng_successor nttmp2 1 in
          if nttmp2' = nt1 then - int i
          else dist_nt_loop nt1 nt2 (i + 1) nttmp1' nttmp2'
      else -99999)"
  by pat_completeness auto
termination
  by (relation "measure (\<lambda>(nt1, nt2, i, nttmp1, nttmp2). 32768 - i)") auto

definition dist_nt :: "u32 \<Rightarrow> u32 \<Rightarrow> int" where
  "dist_nt nt1 nt2 = (if nt1 = nt2 then 0 else dist_nt_loop nt1 nt2 1 nt1 nt2)"

text \<open>
  The upper half of the stepped word is the 16-bit register of the LFSR; the lower half
  holds the bits already shifted out. \<open>lfsr16\<close> is the action of \<open>prng_step\<close> on
  the register, \<open>lfsr_reg\<close> reads the register.
\<close>

definition lfsr_reg :: "u32 \<Rightarrow> u16" where
  "lfsr_reg x = ucast (drop_bit 16 x)"

definition lfsr16 :: "u16 \<Rightarrow> u16" where
  "lfsr16 v = drop_bit 1 v XOR push_bit 15 (v XOR drop_bit 2 v XOR drop_bit 3 v XOR drop_bit 5 v)"

text \<open>
  A linear map on 16-bit vectors over GF(2) as the table of its values on the unit
  vectors: \<open>mv\<close> applies a table to a vector, \<open>mul\<close> composes two tables, \<open>tpow n\<close> is
  the table of the \<open>n\<close>-fold step, by repeated squaring.
\<close>

fun mv :: "u16 list \<Rightarrow> u16 \<Rightarrow> u16" where
  "mv [] v = 0"
| "mv (a # A) v = (if bit v 0 then a else 0) XOR mv A (drop_bit 1 v)"

definition mul :: "u16 list \<Rightarrow> u16 list \<Rightarrow> u16 list" where
  "mul A B = map (mv A) B"

definition unit_table :: "u16 list" where
  "unit_table = map (\<lambda>i. push_bit i 1) [0..<16]"

definition lfsr_table :: "u16 list" where
  "lfsr_table = map lfsr16 unit_table"

definition tsq :: "u16 list \<Rightarrow> u16 list" where
  "tsq A = mul A A"

definition tpow :: "nat \<Rightarrow> u16 list" where
  "tpow n = map (lfsr16 ^^ n) unit_table"

text \<open>Linearity over GF(2): the map respects XOR.\<close>

definition linear16 :: "(u16 \<Rightarrow> u16) \<Rightarrow> bool" where
  "linear16 F \<longleftrightarrow> (\<forall>x y. F (x XOR y) = F x XOR F y)"

section \<open>Tag emulation: the command dispatch of SimulateIso14443aTag\<close>

text \<open>
  Command bytes and sizes from protocols.h and mifare.h, which are not among the sources;
  the values are those of the dispatch table in the spec and of the ISO 14443-3 / NXP
  command sets. The \<open>ORDER_\<close> values are defined in iso14443a.c itself.
\<close>

definition ISO14443A_CMD_REQA :: u8 where "ISO14443A_CMD_REQA = 0x26"
definition ISO14443A_CMD_WUPA :: u8 where "ISO14443A_CMD_WUPA = 0x52"
definition ISO14443A_CMD_ANTICOLL_OR_SELECT :: u8 where "ISO14443A_CMD_ANTICOLL_OR_SELECT = 0x93"
definition ISO14443A_CMD_ANTICOLL_OR_SELECT_2 :: u8 where "ISO14443A_CMD_ANTICOLL_OR_SELECT_2 = 0x95"
definition ISO14443A_CMD_ANTICOLL_OR_SELECT_3 :: u8 where "ISO14443A_CMD_ANTICOLL_OR_SELECT_3 = 0x97"
definition ISO14443A_CMD_PPS :: u8 where "ISO14443A_CMD_PPS = 0xD0"
definition ISO14443A_CMD_READBLOCK :: u8 where "ISO14443A_CMD_READBLOCK = 0x30"
definition ISO14443A_CMD_HALT :: u8 where "ISO14443A_CMD_HALT = 0x50"
definition ISO14443A_CMD_RATS :: u8 where "ISO14443A_CMD_RATS = 0xE0"
definition MIFARE_ULEV1_FASTREAD :: u8 where "MIFARE_ULEV1_FASTREAD = 0x3A"
definition MIFARE_ULC_WRITE :: u8 where "MIFARE_ULC_WRITE = 0xA2"
definition MIFARE_ULC_COMP_WRITE :: u8 where "MIFARE_ULC_COMP_WRITE = 0xA0"
definition MIFARE_ULEV1_READSIG :: u8 where "MIFARE_ULEV1_READSIG = 0x3C"
definition MIFARE_ULEV1_READ_CNT :: u8 where "MIFARE_ULEV1_READ_CNT = 0x39"
definition MIFARE_ULEV1_INCR_CNT :: u8 where "MIFARE_ULEV1_INCR_CNT = 0xA5"
definition MIFARE_ULEV1_CHECKTEAR :: u8 where "MIFARE_ULEV1_CHECKTEAR = 0x3E"
definition MIFARE_ULEV1_VERSION :: u8 where "MIFARE_ULEV1_VERSION = 0x60"
definition MFDES_GET_VERSION :: u8 where "MFDES_GET_VERSION = 0x60"
definition MIFARE_AUTH_KEYA :: u8 where "MIFARE_AUTH_KEYA = 0x60"
definition MIFARE_AUTH_KEYB :: u8 where "MIFARE_AUTH_KEYB = 0x61"
definition MIFARE_ULC_AUTH_1 :: u8 where "MIFARE_ULC_AUTH_1 = 0x1A"
definition MIFARE_ULC_AUTH_2 :: u8 where "MIFARE_ULC_AUTH_2 = 0xAF"
definition MIFARE_ULEV1_AUTH :: u8 where "MIFARE_ULEV1_AUTH = 0x1B"
definition MIFARE_ULEV1_VCSL :: u8 where "MIFARE_ULEV1_VCSL = 0x4B"

definition CARD_ACK :: u8 where "CARD_ACK = 0x0A"
definition CARD_NACK_IV :: u8 where "CARD_NACK_IV = 0x00"

definition MFU_DUMP_PREFIX_LENGTH :: nat where "MFU_DUMP_PREFIX_LENGTH = 56"
definition MIFARE_BLOCK_SIZE :: nat where "MIFARE_BLOCK_SIZE = 16"
definition CRC16_SIZE :: nat where "CRC16_SIZE = 2"

definition ORDER_NONE :: u8 where "ORDER_NONE = 0"
definition ORDER_HALTED :: u8 where "ORDER_HALTED = 5"
definition ORDER_WUPA :: u8 where "ORDER_WUPA = 6"
definition ORDER_AUTH :: u8 where "ORDER_AUTH = 7"
definition ORDER_EV1_COMP_WRITE :: u8 where "ORDER_EV1_COMP_WRITE = 40"

text \<open>
  The \<open>if\<close> / \<open>else if\<close> chain of the main loop, one constructor for each branch in
  the order of the source. \<open>select_branch\<close> evaluates the conditions of the chain;
  \<open>receivedCmd\<close> is the 256-byte command buffer, \<open>len\<close> the number of bytes received.
\<close>

datatype emu_branch =
    BR_COMP_WRITE_PART2 | BR_NR_AR | BR_REQA | BR_WUPA
  | BR_UIDC1 | BR_UIDC2 | BR_UIDC3 | BR_SAKC1 | BR_SAKC2 | BR_SAKC3
  | BR_PPS | BR_READBLOCK | BR_FASTREAD | BR_ULC_WRITE | BR_ULC_COMP_WRITE
  | BR_READSIG | BR_READ_CNT | BR_INCR_CNT | BR_CHECKTEAR | BR_HALT
  | BR_ULEV1_VERSION | BR_MFDES_GET_VERSION | BR_MIFARE_AUTH | BR_RATS
  | BR_ULC_AUTH_1 | BR_ULC_AUTH_2 | BR_ULEV1_AUTH | BR_ULEV1_VCSL | BR_OTHER

definition select_branch :: "u8 \<Rightarrow> int \<Rightarrow> u8 \<Rightarrow> u8 list \<Rightarrow> emu_branch" where
  "select_branch order len tagType receivedCmd =
     (if order = ORDER_EV1_COMP_WRITE \<and> len = 18 then BR_COMP_WRITE_PART2
      else if order = ORDER_AUTH \<and> len = 8 \<and> tagType \<noteq> 2 \<and> tagType \<noteq> 7 \<and> tagType \<noteq> 13 then BR_NR_AR
      else if receivedCmd ! 0 = ISO14443A_CMD_REQA \<and> len = 1 then BR_REQA
      else if receivedCmd ! 0 = ISO14443A_CMD_WUPA \<and> len = 1 then BR_WUPA
      else if receivedCmd ! 1 = 0x20 \<and> receivedCmd ! 0 = ISO14443A_CMD_ANTICOLL_OR_SELECT \<and> len = 2 then BR_UIDC1
      else if receivedCmd ! 1 = 0x20 \<and> receivedCmd ! 0 = ISO14443A_CMD_ANTICOLL_OR_SELECT_2 \<and> len = 2 then BR_UIDC2
      else if receivedCmd ! 1 = 0x20 \<and> receivedCmd ! 0 = ISO14443A_CMD_ANTICOLL_OR_SELECT_3 \<and> len = 2 then BR_UIDC3
      else if receivedCmd ! 1 = 0x70 \<and> receivedCmd ! 0 = ISO14443A_CMD_ANTICOLL_OR_SELECT \<and> len = 9 then BR_SAKC1
      else if receivedCmd ! 1 = 0x70 \<and> receivedCmd ! 0 = ISO14443A_CMD_ANTICOLL_OR_SELECT_2 \<and> len = 9 then BR_SAKC2
      else if receivedCmd ! 1 = 0x70 \<and> receivedCmd ! 0 = ISO14443A_CMD_ANTICOLL_OR_SELECT_3 \<and> len = 9 then BR_SAKC3
      else if receivedCmd ! 0 = ISO14443A_CMD_PPS then BR_PPS
      else if receivedCmd ! 0 = ISO14443A_CMD_READBLOCK \<and> len = 4 then BR_READBLOCK
      else if receivedCmd ! 0 = MIFARE_ULEV1_FASTREAD \<and> len = 5 then BR_FASTREAD
      else if receivedCmd ! 0 = MIFARE_ULC_WRITE \<and> len = 8 \<and> (tagType = 2 \<or> tagType = 7 \<or> tagType = 13) then BR_ULC_WRITE
      else if receivedCmd ! 0 = MIFARE_ULC_COMP_WRITE \<and> len = 4 \<and> (tagType = 2 \<or> tagType = 7 \<or> tagType = 13) then BR_ULC_COMP_WRITE
      else if receivedCmd ! 0 = MIFARE_ULEV1_READSIG \<and> len = 4 \<and> tagType = 7 then BR_READSIG
      else if receivedCmd ! 0 = MIFARE_ULEV1_READ_CNT \<and> len = 4 \<and> tagType = 7 then BR_READ_CNT
      else if receivedCmd ! 0 = MIFARE_ULEV1_INCR_CNT \<and> len = 8 \<and> tagType = 7 then BR_INCR_CNT
      else if receivedCmd ! 0 = MIFARE_ULEV1_CHECKTEAR \<and> len = 4 \<and> tagType = 7 then BR_CHECKTEAR
      else if receivedCmd ! 0 = ISO14443A_CMD_HALT \<and> len = 4 then BR_HALT
      else if receivedCmd ! 0 = MIFARE_ULEV1_VERSION \<and> len = 3 \<and> (tagType = 2 \<or> tagType = 7) then BR_ULEV1_VERSION
      else if receivedCmd ! 0 = MFDES_GET_VERSION \<and> len = 4 \<and> tagType = 3 then BR_MFDES_GET_VERSION
      else if (receivedCmd ! 0 = MIFARE_AUTH_KEYA \<or> receivedCmd ! 0 = MIFARE_AUTH_KEYB) \<and> len = 4
              \<and> tagType \<noteq> 2 \<and> tagType \<noteq> 7 \<and> tagType \<noteq> 13 then BR_MIFARE_AUTH
      else if receivedCmd ! 0 = ISO14443A_CMD_RATS \<and> len = 4 then BR_RATS
      else if receivedCmd ! 0 = MIFARE_ULC_AUTH_1 \<and> len = 4 \<and> tagType = 13 then BR_ULC_AUTH_1
      else if receivedCmd ! 0 = MIFARE_ULC_AUTH_2 \<and> len = 19 \<and> tagType = 13 then BR_ULC_AUTH_2
      else if receivedCmd ! 0 = MIFARE_ULEV1_AUTH \<and> len = 7 \<and> tagType = 7 then BR_ULEV1_AUTH
      else if receivedCmd ! 0 = MIFARE_ULEV1_VCSL \<and> len = 23 \<and> tagType = 7 then BR_ULEV1_VCSL
      else BR_OTHER)"

text \<open>
  What a branch hands to the sending routines: \<open>EmSend4bit(resp)\<close> with its 4-bit
  answer, or \<open>EmSendCmd(resp, respLen)\<close> with the bytes of the frame.
\<close>

datatype emu_send = EmSend4bit u8 | EmSendCmd "u8 list"

text \<open>
  Modelled from the spec: \<open>emlGet\<close> (mifareutil.c) is not among the sources; the spec
  leaves the emulator memory to its accessor. \<open>emlGet(out, offset, length)\<close> copies
  \<open>length\<close> bytes of the emulator memory from byte \<open>offset\<close> to \<open>out\<close>, and leaves
  \<open>out\<close> as it is when the range does not lie within the memory.
\<close>

definition emlGet :: "u8 list \<Rightarrow> u8 list \<Rightarrow> nat \<Rightarrow> nat \<Rightarrow> u8 list" where
  "emlGet em out offset length' =
     (if offset + length' \<le> length em then memcpy_at out 0 (drop offset em) length' else out)"

text \<open>
  The READ branch (\<open>ISO14443A_CMD_READBLOCK\<close>, 4 bytes). The result lists the frames
  sent, the \<open>emlGet\<close> calls made (offset and length), the precompiled response chosen
  (\<open>p_response\<close>, \<open>None\<close> for \<open>NULL\<close>), and the two variables of the main loop that the
  branch changes. \<open>RESP_INDEX_UIDC1\<close> is index 1 of the response table.
\<close>

record read_branch =
  rb_sent :: "emu_send list"
  rb_emlGet :: "(nat \<times> nat) list"
  rb_p_response :: "nat option"
  rb_numReads :: u32
  rb_finished :: bool

definition RESP_INDEX_UIDC1 :: nat where "RESP_INDEX_UIDC1 = 1"

definition handle_READBLOCK ::
    "u8 \<Rightarrow> u8 \<Rightarrow> u8 \<Rightarrow> u32 \<Rightarrow> u8 list \<Rightarrow> u8 list \<Rightarrow> read_branch" where
  "handle_READBLOCK tagType pages exitAfterNReads numReads em receivedCmd =
     (let block = receivedCmd ! 1 in
      if tagType = 7 \<or> tagType = 2 \<or> tagType = 13 then
        if block > pages then
          \<lparr>rb_sent = [EmSend4bit CARD_NACK_IV], rb_emlGet = [], rb_p_response = None,
           rb_numReads = numReads, rb_finished = False\<rparr>
        else
          let start = unat block * 4 + MFU_DUMP_PREFIX_LENGTH;
              emdata0 = replicate (MIFARE_BLOCK_SIZE + CRC16_SIZE) 0;
              emdata1 = emlGet em emdata0 start MIFARE_BLOCK_SIZE;
              emdata2 = AddCrc14A emdata1 MIFARE_BLOCK_SIZE;
              numReads' = numReads + 1
          in \<lparr>rb_sent = [EmSendCmd emdata2], rb_emlGet = [(start, MIFARE_BLOCK_SIZE)],
              rb_p_response = None, rb_numReads = numReads',
              rb_finished = (exitAfterNReads > 0 \<and> numReads' = ucast exitAfterNReads)\<rparr>
      else if tagType = 9 \<and> block = 1 then
        \<lparr>rb_sent = [], rb_emlGet = [], rb_p_response = Some RESP_INDEX_UIDC1,
         rb_numReads = numReads, rb_finished = False\<rparr>
      else
        let emdata0 = replicate (MIFARE_BLOCK_SIZE + CRC16_SIZE) 0;
            emdata1 = emlGet em emdata0 (unat block) MIFARE_BLOCK_SIZE;
            emdata2 = AddCrc14A emdata1 MIFARE_BLOCK_SIZE
        in \<lparr>rb_sent = [EmSendCmd emdata2], rb_emlGet = [(unat block, MIFARE_BLOCK_SIZE)],
            rb_p_response = None, rb_numReads = numReads, rb_finished = False\<rparr>)"

text \<open>
  The UL-C AUTH part 2 branch (\<open>MIFARE_ULC_AUTH_2\<close>, 19 bytes, tag type 13). The 3DES
  routines \<open>tdes_nxp_receive\<close> and \<open>tdes_nxp_send\<close> (desfire_crypto.c) are not among
  the sources and are parameters: each maps data, key and IV to the output and the IV it
  leaves behind. \<open>rol\<close> and \<open>ror\<close> (util.c) rotate a byte array by one byte.
  \<open>response\<close> is the buffer \<open>dynamic_response_info.response\<close>. The result holds the
  buffer, \<open>response_n\<close>, the frames for which \<open>prepare_tag_modulation\<close> was called (the
  first \<open>response_n\<close> bytes of the buffer at each call), \<open>order\<close> and the IV.
\<close>

type_synonym tdes_fn = "u8 list \<Rightarrow> u8 list \<Rightarrow> u8 list \<Rightarrow> u8 list \<times> u8 list"

definition rol :: "u8 list \<Rightarrow> u8 list" where
  "rol data = (case data of [] \<Rightarrow> [] | first # rest \<Rightarrow> rest @ [first])"

definition ror :: "u8 list \<Rightarrow> u8 list" where
  "ror data = (if data = [] then [] else last data # butlast data)"

record dynamic_response =
  dr_response :: "u8 list"
  dr_response_n :: nat
  dr_prepared :: "u8 list list"
  dr_order :: u8
  dr_ulc_iv :: "u8 list"

definition handle_ULC_AUTH_2 ::
    "tdes_fn \<Rightarrow> tdes_fn \<Rightarrow> u8 list \<Rightarrow> u8 list \<Rightarrow> u8 list \<Rightarrow> bool \<Rightarrow> u8 list \<Rightarrow> dynamic_response" where
  "handle_ULC_AUTH_2 tdes_nxp_receive tdes_nxp_send receivedCmd ulc_key ulc_iv ulc_part2 response =
     (let enc_rnd_ab = take 16 (drop 1 receivedCmd);
          (rnd_ab0, iv1) = tdes_nxp_receive enc_rnd_ab ulc_key ulc_iv;
          rnd_ab1 = take 8 rnd_ab0 @ ror (take 8 (drop 8 rnd_ab0));
          r0 = response[0 := 0x00];
          (r1, iv2) =
             (if ulc_part2 then (memcpy_at r0 1 (replicate 8 0) 8, iv1)
              else
                let rnd_ab2 = rol (take 8 rnd_ab1) @ drop 8 rnd_ab1;
                    (out, iv') = tdes_nxp_send (take 8 rnd_ab2) ulc_key iv1
                in (memcpy_at r0 1 out 8, iv'));
          r2 = AddCrc14A r1 9;
          prepared1 = [take (1 + 8 + 2) r2];
          r3 = AddCrc14A r2 17;
          prepared2 = prepared1 @ [take (1 + 16 + 2) r3]
      in \<lparr>dr_response = r3, dr_response_n = 1 + 16 + 2, dr_prepared = prepared2,
          dr_order = ORDER_NONE, dr_ulc_iv = iv2\<rparr>)"

text \<open>
  An emulator memory of 96 bytes: the 56-byte dump header and pages 0 to 3 are zero,
  pages 4 to 7 hold sixteen bytes of data, and two zero pages follow.
\<close>

definition em_example :: "u8 list" where
  "em_example =
     replicate 72 0x00
       @ [0xDE, 0xAD, 0xBE, 0xEF, 0x04, 0x11, 0x22, 0x33, 0x44, 0x55, 0x66, 0x88, 0xCA, 0xFE, 0xF0, 0x0D]
       @ replicate 8 0x00"

section \<open>Properties\<close>

lemma timeout_compensation: "(DELAY_AIR2ARM_AS_READER + DELAY_ARM2AIR_AS_READER) div 128 = 2"
  by (simp add: DELAY_AIR2ARM_AS_READER_def DELAY_ARM2AIR_AS_READER_def)

text \<open>
  C10. For every timeout value \<open>t\<close>, \<open>iso14a_get_timeout\<close> after \<open>iso14a_set_timeout(t)\<close>
  returns exactly \<open>t\<close>: the compensation term \<open>(DELAY_AIR2ARM_AS_READER +
  DELAY_ARM2AIR_AS_READER)/128 + 2\<close> is added and subtracted in 32-bit arithmetic, which
  cancels also when the sum wraps around.
\<close>

theorem iso14a_timeout_roundtrip:
  "iso14a_get_timeout (iso14a_set_timeout t g) = t"
  by (simp add: iso14a_get_timeout_def iso14a_set_timeout_def)

declare wait_SspClk.simps [simp del]
declare bitmask_loop.simps [simp del]

lemma wait_SspClk_done: "\<not> ssp_clk g < target \<Longrightarrow> wait_SspClk target g = snd (GetCountSspClk g)"
  by (subst wait_SspClk.simps) simp

lemma wait_SspClk_step:
  "ssp_clk g < target \<Longrightarrow> wait_SspClk target g = wait_SspClk target (snd (GetCountSspClk g))"
  by (subst wait_SspClk.simps) simp

lemma Transmit_guard_word:
  "g_hf_field_active g \<Longrightarrow>
     LastTimeProxToAirStart (snd (TransmitFor14443a len timing g)) + REQUEST_GUARD_TIME
       \<le> NextTransferTime (snd (TransmitFor14443a len timing g))"
  by (simp add: TransmitFor14443a_def Let_def split: option.splits prod.splits)

text \<open>
  C2 (as amended). After a call of \<open>TransmitFor14443a\<close> with the HF field active, for
  each of the three forms of the timing argument, \<open>NextTransferTime\<close> is at least
  \<open>REQUEST_GUARD_TIME\<close> past the transfer start \<open>LastTimeProxToAirStart\<close>, provided
  start + \<open>REQUEST_GUARD_TIME\<close> still fits the 32-bit counter. The bound holds for the
  numbers the two words stand for, and for their 32-bit difference.
\<close>

theorem TransmitFor14443a_guard_time:
  assumes "g_hf_field_active g"
    and "g' = snd (TransmitFor14443a len timing g)"
    and "unat (LastTimeProxToAirStart g') + unat REQUEST_GUARD_TIME < 2 ^ 32"
  shows "unat (LastTimeProxToAirStart g') + unat REQUEST_GUARD_TIME \<le> unat (NextTransferTime g')
       \<and> REQUEST_GUARD_TIME \<le> NextTransferTime g' - LastTimeProxToAirStart g'"
proof -
  have w: "LastTimeProxToAirStart g' + REQUEST_GUARD_TIME \<le> NextTransferTime g'"
    using Transmit_guard_word [OF assms(1)] assms(2) by simp
  have "unat (LastTimeProxToAirStart g' + REQUEST_GUARD_TIME)
      = unat (LastTimeProxToAirStart g') + unat REQUEST_GUARD_TIME"
    using unat_add_lem [of "LastTimeProxToAirStart g'" REQUEST_GUARD_TIME] assms(3) by simp
  with w have le: "unat (LastTimeProxToAirStart g') + unat REQUEST_GUARD_TIME \<le> unat (NextTransferTime g')"
    by (simp add: word_le_nat_alt)
  have "LastTimeProxToAirStart g' \<le> NextTransferTime g'"
    using le by (simp add: word_le_nat_alt)
  then have "unat (NextTransferTime g' - LastTimeProxToAirStart g')
      = unat (NextTransferTime g') - unat (LastTimeProxToAirStart g')"
    by (simp add: unat_sub)
  then have "REQUEST_GUARD_TIME \<le> NextTransferTime g' - LastTimeProxToAirStart g'"
    using le by (simp add: word_le_nat_alt)
  with le show ?thesis by simp
qed

text \<open>
  The theorem at an idle reader: clock at 103, no earlier transfer, \<open>timing = NULL\<close>.
  The comparison inside \<open>MAX\<close> reads 103 and the value is read as 104, so the
  transfer starts at 112 and the next one may start at 550.
\<close>

theorem TransmitFor14443a_guard_time_witness:
  "g_hf_field_active g_example
   \<and> unat (LastTimeProxToAirStart (snd (TransmitFor14443a 4 None g_example))) + unat REQUEST_GUARD_TIME < 2 ^ 32
   \<and> LastTimeProxToAirStart (snd (TransmitFor14443a 4 None g_example)) = 112
   \<and> NextTransferTime (snd (TransmitFor14443a 4 None g_example)) = 550
   \<and> unat (LastTimeProxToAirStart (snd (TransmitFor14443a 4 None g_example))) + unat REQUEST_GUARD_TIME
        \<le> unat (NextTransferTime (snd (TransmitFor14443a 4 None g_example)))
   \<and> REQUEST_GUARD_TIME \<le> NextTransferTime (snd (TransmitFor14443a 4 None g_example))
         - LastTimeProxToAirStart (snd (TransmitFor14443a 4 None g_example))"
proof -
  have e: "snd (TransmitFor14443a 4 None g_example) =
     g_example\<lparr>ssp_clk := 113, LastTimeProxToAirStart := 112,
        ssc_thr := [0xC0, 0x0C, 0x00, 0x00], NextTransferTime := 550\<rparr>"
    by (simp add: g_example_def TransmitFor14443a_def MAX_NextTransferTime_clock_def
        GetCountSspClk_def REQUEST_GUARD_TIME_def Let_def wait_SspClk_done wait_SspClk_step)
  have a: "g_hf_field_active g_example" by (simp add: g_example_def)
  have b: "unat (LastTimeProxToAirStart (snd (TransmitFor14443a 4 None g_example))) + unat REQUEST_GUARD_TIME < 2 ^ 32"
    by (simp add: e REQUEST_GUARD_TIME_def)
  show ?thesis
    using TransmitFor14443a_guard_time [OF a refl b] a b by (simp add: e)
qed

text \<open>
  C2 as stated fails near the end of the counter's range. With a target time of
  \<open>0xFFFFFF00\<close> and \<open>NextTransferTime = 0xFFFFFF64\<close>, the sum start +
  \<open>REQUEST_GUARD_TIME\<close> wraps around to \<open>0xB6\<close>, the maximum keeps the old
  \<open>NextTransferTime\<close>, and the distance to the start is 100 cycles, less than 438.
\<close>

theorem TransmitFor14443a_guard_time_counterexample:
  "g_hf_field_active g_late
   \<and> LastTimeProxToAirStart (snd (TransmitFor14443a 4 (Some 0xFFFFFF00) g_late)) = 0xFFFFFF00
   \<and> NextTransferTime (snd (TransmitFor14443a 4 (Some 0xFFFFFF00) g_late)) = 0xFFFFFF64
   \<and> \<not> REQUEST_GUARD_TIME \<le> NextTransferTime (snd (TransmitFor14443a 4 (Some 0xFFFFFF00) g_late))
        - LastTimeProxToAirStart (snd (TransmitFor14443a 4 (Some 0xFFFFFF00) g_late))
   \<and> \<not> unat (LastTimeProxToAirStart (snd (TransmitFor14443a 4 (Some 0xFFFFFF00) g_late)))
          + unat REQUEST_GUARD_TIME
        \<le> unat (NextTransferTime (snd (TransmitFor14443a 4 (Some 0xFFFFFF00) g_late)))"
proof -
  have e: "snd (TransmitFor14443a 4 (Some 0xFFFFFF00) g_late) =
     g_late\<lparr>ssp_clk := 0xFFFFFF01, LastTimeProxToAirStart := 0xFFFFFF00,
        ssc_thr := [0xC0, 0x0C, 0x00, 0x00], NextTransferTime := 0xFFFFFF64\<rparr>"
    by (simp add: g_late_def TransmitFor14443a_def PrepareDelayedTransfer_def GetCountSspClk_def
        REQUEST_GUARD_TIME_def Let_def wait_SspClk_done)
  show ?thesis
    by (simp add: e REQUEST_GUARD_TIME_def) (simp add: g_late_def)
qed

lemma Uart14aReset_fourBits [simp]:
  "Uart14aReset (U\<lparr>Uart_fourBits := w\<rparr>) = Uart14aReset U"
  by (simp add: Uart14aReset_def)

text \<open>
  C3 (as amended). In the synchronised Miller decoder, while the output buffer has room:
  a Sequence Z (modulation in the first half only) that directly follows a Sequence X is a
  framing violation and resets the decoder; so does a Sequence Y directly after the start of
  communication, and so does modulation in both halves. A Sequence X that directly follows
  a Sequence X is not a violation: at every bit position, the ninth (parity) position
  included, it is taken as a further 1 bit, the decoder stays in \<open>STATE_14A_MILLER_X\<close>, and
  at the ninth position the byte is stored. With a full output buffer the decoder returns
  true at once and leaves its state alone.
\<close>

theorem MillerDecoding_framing:
  "(Uart_len U \<noteq> Uart_output_len U \<and> Uart_state U = STATE_14A_MILLER_X
      \<and> IsMillerModulationNibble1 (Uart_window b U) \<and> \<not> IsMillerModulationNibble2 (Uart_window b U)
    \<longrightarrow> MillerDecoding b nrt now U = (False, Uart14aReset U))
   \<and> (Uart_len U \<noteq> Uart_output_len U \<and> Uart_state U = STATE_14A_START_OF_COMMUNICATION
      \<and> \<not> IsMillerModulationNibble1 (Uart_window b U) \<and> \<not> IsMillerModulationNibble2 (Uart_window b U)
    \<longrightarrow> MillerDecoding b nrt now U = (False, Uart14aReset U))
   \<and> (Uart_len U \<noteq> Uart_output_len U \<and> Uart_state U \<noteq> STATE_14A_UNSYNCD
      \<and> IsMillerModulationNibble1 (Uart_window b U) \<and> IsMillerModulationNibble2 (Uart_window b U)
    \<longrightarrow> MillerDecoding b nrt now U = (False, Uart14aReset U))
   \<and> (Uart_len U \<noteq> Uart_output_len U \<and> Uart_state U = STATE_14A_MILLER_X
      \<and> \<not> IsMillerModulationNibble1 (Uart_window b U) \<and> IsMillerModulationNibble2 (Uart_window b U)
    \<longrightarrow> MillerDecoding b nrt now U =
          (False, Uart_full_byte
             (U\<lparr>Uart_fourBits := push_bit 8 (Uart_fourBits U) OR ucast b,
                Uart_bitCount := Uart_bitCount U + 1,
                Uart_shiftReg := drop_bit 1 (Uart_shiftReg U) OR 0x100,
                Uart_state := STATE_14A_MILLER_X,
                Uart_endTime := Uart_startTime U
                   + word_of_int (8 * (9 * uint (Uart_len U) + sint (Uart_bitCount U + 1) + 1)) - 2\<rparr>))
        \<and> Uart_state (snd (MillerDecoding b nrt now U)) = STATE_14A_MILLER_X
        \<and> MillerDecoding b nrt now U \<noteq> (False, Uart14aReset U)
        \<and> (sint (Uart_bitCount U + 1) < 9 \<longrightarrow>
              Uart_bitCount (snd (MillerDecoding b nrt now U)) = Uart_bitCount U + 1
            \<and> Uart_shiftReg (snd (MillerDecoding b nrt now U)) = drop_bit 1 (Uart_shiftReg U) OR 0x100
            \<and> Uart_len (snd (MillerDecoding b nrt now U)) = Uart_len U
            \<and> Uart_output (snd (MillerDecoding b nrt now U)) = Uart_output U)
        \<and> (9 \<le> sint (Uart_bitCount U + 1) \<longrightarrow>
              Uart_bitCount (snd (MillerDecoding b nrt now U)) = 0
            \<and> Uart_shiftReg (snd (MillerDecoding b nrt now U)) = 0
            \<and> Uart_len (snd (MillerDecoding b nrt now U)) = Uart_len U + 1
            \<and> Uart_output (snd (MillerDecoding b nrt now U)) =
                (Uart_output U)[unat (Uart_len U) :=
                   ucast ((drop_bit 1 (Uart_shiftReg U) OR 0x100) AND 0xff)]))
   \<and> (Uart_len U = Uart_output_len U \<longrightarrow> MillerDecoding b nrt now U = (True, U))"
proof -
  have full: "Uart_state (Uart_full_byte V) = Uart_state V" for V
    by (simp add: Uart_full_byte_def Let_def)
  have reset: "Uart_state (Uart14aReset V) = STATE_14A_UNSYNCD" for V
    by (simp add: Uart14aReset_def)
  have r1: "Uart_len U \<noteq> Uart_output_len U \<Longrightarrow> Uart_state U = STATE_14A_MILLER_X
      \<Longrightarrow> IsMillerModulationNibble1 (Uart_window b U) \<Longrightarrow> \<not> IsMillerModulationNibble2 (Uart_window b U)
      \<Longrightarrow> MillerDecoding b nrt now U = (False, Uart14aReset U)"
    by (simp add: MillerDecoding_def Uart_window_def Let_def)
  have r2: "Uart_len U \<noteq> Uart_output_len U \<Longrightarrow> Uart_state U = STATE_14A_START_OF_COMMUNICATION
      \<Longrightarrow> \<not> IsMillerModulationNibble1 (Uart_window b U) \<Longrightarrow> \<not> IsMillerModulationNibble2 (Uart_window b U)
      \<Longrightarrow> MillerDecoding b nrt now U = (False, Uart14aReset U)"
    by (simp add: MillerDecoding_def Uart_window_def Let_def)
  have r3: "Uart_len U \<noteq> Uart_output_len U \<Longrightarrow> Uart_state U \<noteq> STATE_14A_UNSYNCD
      \<Longrightarrow> IsMillerModulationNibble1 (Uart_window b U) \<Longrightarrow> IsMillerModulationNibble2 (Uart_window b U)
      \<Longrightarrow> MillerDecoding b nrt now U = (False, Uart14aReset U)"
    by (simp add: MillerDecoding_def Uart_window_def Let_def)
  have r5: "Uart_len U = Uart_output_len U \<Longrightarrow> MillerDecoding b nrt now U = (True, U)"
    by (simp add: MillerDecoding_def)
  define V where "V = U\<lparr>Uart_fourBits := push_bit 8 (Uart_fourBits U) OR ucast b,
                Uart_bitCount := Uart_bitCount U + 1,
                Uart_shiftReg := drop_bit 1 (Uart_shiftReg U) OR 0x100,
                Uart_state := STATE_14A_MILLER_X,
                Uart_endTime := Uart_startTime U
                   + word_of_int (8 * (9 * uint (Uart_len U) + sint (Uart_bitCount U + 1) + 1)) - 2\<rparr>"
  have V: "Uart_state V = STATE_14A_MILLER_X" "Uart_bitCount V = Uart_bitCount U + 1"
    "Uart_shiftReg V = drop_bit 1 (Uart_shiftReg U) OR 0x100" "Uart_len V = Uart_len U"
    "Uart_output V = Uart_output U"
    by (simp_all add: V_def)
  have r4: "MillerDecoding b nrt now U = (False, Uart_full_byte V)"
    if "Uart_len U \<noteq> Uart_output_len U" "Uart_state U = STATE_14A_MILLER_X"
      "\<not> IsMillerModulationNibble1 (Uart_window b U)" "IsMillerModulationNibble2 (Uart_window b U)"
    using that
    by (simp add: MillerDecoding_def Uart_window_def Let_def Uart_end_time_def V_def)
  have s4: "Uart_state (Uart_full_byte V) = STATE_14A_MILLER_X"
    by (simp add: full V)
  have n4: "(False, Uart_full_byte V) \<noteq> (False, Uart14aReset U)"
    using s4 reset [of U] by auto
  have lo: "sint (Uart_bitCount U + 1) < 9 \<Longrightarrow> Uart_full_byte V = V"
    by (simp add: Uart_full_byte_def V)
  have hi: "9 \<le> sint (Uart_bitCount U + 1) \<Longrightarrow>
      Uart_bitCount (Uart_full_byte V) = 0 \<and> Uart_shiftReg (Uart_full_byte V) = 0
      \<and> Uart_len (Uart_full_byte V) = Uart_len U + 1
      \<and> Uart_output (Uart_full_byte V) =
          (Uart_output U)[unat (Uart_len U) := ucast ((drop_bit 1 (Uart_shiftReg U) OR 0x100) AND 0xff)]"
    by (simp add: Uart_full_byte_def Let_def V)
  have c4: "Uart_len U \<noteq> Uart_output_len U \<and> Uart_state U = STATE_14A_MILLER_X
      \<and> \<not> IsMillerModulationNibble1 (Uart_window b U) \<and> IsMillerModulationNibble2 (Uart_window b U)
    \<longrightarrow> MillerDecoding b nrt now U = (False, Uart_full_byte V)
        \<and> Uart_state (snd (MillerDecoding b nrt now U)) = STATE_14A_MILLER_X
        \<and> MillerDecoding b nrt now U \<noteq> (False, Uart14aReset U)
        \<and> (sint (Uart_bitCount U + 1) < 9 \<longrightarrow>
              Uart_bitCount (snd (MillerDecoding b nrt now U)) = Uart_bitCount U + 1
            \<and> Uart_shiftReg (snd (MillerDecoding b nrt now U)) = drop_bit 1 (Uart_shiftReg U) OR 0x100
            \<and> Uart_len (snd (MillerDecoding b nrt now U)) = Uart_len U
            \<and> Uart_output (snd (MillerDecoding b nrt now U)) = Uart_output U)
        \<and> (9 \<le> sint (Uart_bitCount U + 1) \<longrightarrow>
              Uart_bitCount (snd (MillerDecoding b nrt now U)) = 0
            \<and> Uart_shiftReg (snd (MillerDecoding b nrt now U)) = 0
            \<and> Uart_len (snd (MillerDecoding b nrt now U)) = Uart_len U + 1
            \<and> Uart_output (snd (MillerDecoding b nrt now U)) =
                (Uart_output U)[unat (Uart_len U) :=
                   ucast ((drop_bit 1 (Uart_shiftReg U) OR 0x100) AND 0xff)])"
  proof
    assume a: "Uart_len U \<noteq> Uart_output_len U \<and> Uart_state U = STATE_14A_MILLER_X
      \<and> \<not> IsMillerModulationNibble1 (Uart_window b U) \<and> IsMillerModulationNibble2 (Uart_window b U)"
    then have e: "MillerDecoding b nrt now U = (False, Uart_full_byte V)"
      using r4 by blast
    show "MillerDecoding b nrt now U = (False, Uart_full_byte V)
        \<and> Uart_state (snd (MillerDecoding b nrt now U)) = STATE_14A_MILLER_X
        \<and> MillerDecoding b nrt now U \<noteq> (False, Uart14aReset U)
        \<and> (sint (Uart_bitCount U + 1) < 9 \<longrightarrow>
              Uart_bitCount (snd (MillerDecoding b nrt now U)) = Uart_bitCount U + 1
            \<and> Uart_shiftReg (snd (MillerDecoding b nrt now U)) = drop_bit 1 (Uart_shiftReg U) OR 0x100
            \<and> Uart_len (snd (MillerDecoding b nrt now U)) = Uart_len U
            \<and> Uart_output (snd (MillerDecoding b nrt now U)) = Uart_output U)
        \<and> (9 \<le> sint (Uart_bitCount U + 1) \<longrightarrow>
              Uart_bitCount (snd (MillerDecoding b nrt now U)) = 0
            \<and> Uart_shiftReg (snd (MillerDecoding b nrt now U)) = 0
            \<and> Uart_len (snd (MillerDecoding b nrt now U)) = Uart_len U + 1
            \<and> Uart_output (snd (MillerDecoding b nrt now U)) =
                (Uart_output U)[unat (Uart_len U) :=
                   ucast ((drop_bit 1 (Uart_shiftReg U) OR 0x100) AND 0xff)])"
      unfolding e snd_conv using s4 n4 lo hi V by simp
  qed
  show ?thesis
    unfolding V_def [symmetric] using r1 r2 r3 c4 r5 by blast
qed

lemma Uart_after_SOC_eq:
  "Uart_after_SOC =
     \<lparr>Uart_state = STATE_14A_START_OF_COMMUNICATION, Uart_shiftReg = 0, Uart_bitCount = 0,
      Uart_len = 0, Uart_output_len = 8, Uart_posCnt = 0, Uart_syncBit = 0,
      Uart_parityBits = 0, Uart_parityLen = 0, Uart_fourBits = 0xFFFFFF3F,
      Uart_startTime = 0, Uart_endTime = 0,
      Uart_output = [0, 0, 0, 0, 0, 0, 0, 0], Uart_parity = [0, 0]\<rparr>"
  by code_simp

lemma Uart_after_X_eq:
  "Uart_after_X =
     \<lparr>Uart_state = STATE_14A_MILLER_X, Uart_shiftReg = 0x100, Uart_bitCount = 1,
      Uart_len = 0, Uart_output_len = 8, Uart_posCnt = 0, Uart_syncBit = 0,
      Uart_parityBits = 0, Uart_parityLen = 0, Uart_fourBits = 0xFFFF3FF3,
      Uart_startTime = 0, Uart_endTime = 14,
      Uart_output = [0, 0, 0, 0, 0, 0, 0, 0], Uart_parity = [0, 0]\<rparr>"
  by code_simp

lemmas Miller_eval =
  Uart_window_def IsMillerModulationNibble1_def IsMillerModulationNibble2_def Mod_Miller_LUT_def

lemma Uart_after_8_bits_eq:
  "Uart_after_8_bits =
     \<lparr>Uart_state = STATE_14A_MILLER_X, Uart_shiftReg = 0x180, Uart_bitCount = 8,
      Uart_len = 0, Uart_output_len = 8, Uart_posCnt = 0, Uart_syncBit = 0,
      Uart_parityBits = 0, Uart_parityLen = 0, Uart_fourBits = 0x3F3FF3F3,
      Uart_startTime = 0, Uart_endTime = 70,
      Uart_output = [0, 0, 0, 0, 0, 0, 0, 0], Uart_parity = [0, 0]\<rparr>"
  by code_simp

lemma Uart_full_eq:
  "Uart_full =
     \<lparr>Uart_state = STATE_14A_MILLER_X, Uart_shiftReg = 0, Uart_bitCount = 0,
      Uart_len = 1, Uart_output_len = 1, Uart_posCnt = 0, Uart_syncBit = 0,
      Uart_parityBits = 1, Uart_parityLen = 0, Uart_fourBits = 0x3FF3F3F3,
      Uart_startTime = 0, Uart_endTime = 78,
      Uart_output = [0xC0], Uart_parity = [0]\<rparr>"
  by code_simp

text \<open>
  The cases of the theorem on a running decoder: Z after X, Y after the start of
  communication, modulation in both halves, X after X at the second bit, X after X at the
  parity bit of the byte \<open>0xC0\<close> (the byte is stored), and a full buffer.
\<close>

theorem MillerDecoding_framing_witness:
  "MillerDecoding 0x3F 0 0 Uart_after_X = (False, Uart14aReset Uart_after_X)
   \<and> MillerDecoding 0xFF 0 0 Uart_after_SOC = (False, Uart14aReset Uart_after_SOC)
   \<and> MillerDecoding 0x33 0 0 Uart_after_X = (False, Uart14aReset Uart_after_X)
   \<and> Uart_state (snd (MillerDecoding 0xF3 0 0 Uart_after_X)) = STATE_14A_MILLER_X
   \<and> Uart_bitCount (snd (MillerDecoding 0xF3 0 0 Uart_after_X)) = 2
   \<and> Uart_shiftReg (snd (MillerDecoding 0xF3 0 0 Uart_after_X)) = 0x180
   \<and> Uart_state (snd (MillerDecoding 0xF3 0 0 Uart_after_8_bits)) = STATE_14A_MILLER_X
   \<and> MillerDecoding 0xF3 0 0 Uart_after_8_bits \<noteq> (False, Uart14aReset Uart_after_8_bits)
   \<and> Uart_bitCount (snd (MillerDecoding 0xF3 0 0 Uart_after_8_bits)) = 0
   \<and> Uart_len (snd (MillerDecoding 0xF3 0 0 Uart_after_8_bits)) = 1
   \<and> Uart_output (snd (MillerDecoding 0xF3 0 0 Uart_after_8_bits)) = [0xC0, 0, 0, 0, 0, 0, 0, 0]
   \<and> MillerDecoding 0x3F 0 0 Uart_full = (True, Uart_full)"
proof -
  have sX: "Uart_len Uart_after_X \<noteq> Uart_output_len Uart_after_X"
    "Uart_state Uart_after_X = STATE_14A_MILLER_X" "Uart_state Uart_after_X \<noteq> STATE_14A_UNSYNCD"
    "sint (Uart_bitCount Uart_after_X + 1) < 9"
    "Uart_bitCount Uart_after_X = 1" "Uart_shiftReg Uart_after_X = 0x100"
    by (simp_all add: Uart_after_X_eq)
  have sS: "Uart_len Uart_after_SOC \<noteq> Uart_output_len Uart_after_SOC"
    "Uart_state Uart_after_SOC = STATE_14A_START_OF_COMMUNICATION"
    by (simp_all add: Uart_after_SOC_eq)
  have s8: "Uart_len Uart_after_8_bits \<noteq> Uart_output_len Uart_after_8_bits"
    "Uart_state Uart_after_8_bits = STATE_14A_MILLER_X"
    "9 \<le> sint (Uart_bitCount Uart_after_8_bits + 1)"
    "Uart_len Uart_after_8_bits = 0" "Uart_shiftReg Uart_after_8_bits = 0x180"
    "Uart_output Uart_after_8_bits = [0, 0, 0, 0, 0, 0, 0, 0]"
    by (simp_all add: Uart_after_8_bits_eq)
  have sF: "Uart_len Uart_full = Uart_output_len Uart_full"
    by (simp add: Uart_full_eq)
  have wZ: "IsMillerModulationNibble1 (Uart_window 0x3F Uart_after_X)"
    "\<not> IsMillerModulationNibble2 (Uart_window 0x3F Uart_after_X)"
    by (simp_all add: Uart_after_X_eq Miller_eval)
  have wY: "\<not> IsMillerModulationNibble1 (Uart_window 0xFF Uart_after_SOC)"
    "\<not> IsMillerModulationNibble2 (Uart_window 0xFF Uart_after_SOC)"
    by (simp_all add: Uart_after_SOC_eq Miller_eval)
  have wB: "IsMillerModulationNibble1 (Uart_window 0x33 Uart_after_X)"
    "IsMillerModulationNibble2 (Uart_window 0x33 Uart_after_X)"
    by (simp_all add: Uart_after_X_eq Miller_eval)
  have wX: "\<not> IsMillerModulationNibble1 (Uart_window 0xF3 Uart_after_X)"
    "IsMillerModulationNibble2 (Uart_window 0xF3 Uart_after_X)"
    by (simp_all add: Uart_after_X_eq Miller_eval)
  have w8: "\<not> IsMillerModulationNibble1 (Uart_window 0xF3 Uart_after_8_bits)"
    "IsMillerModulationNibble2 (Uart_window 0xF3 Uart_after_8_bits)"
    by (simp_all add: Uart_after_8_bits_eq Miller_eval)
  have c1: "MillerDecoding 0x3F 0 0 Uart_after_X = (False, Uart14aReset Uart_after_X)"
    using MillerDecoding_framing [of Uart_after_X "0x3F" 0 0] sX wZ by blast
  have c2: "MillerDecoding 0xFF 0 0 Uart_after_SOC = (False, Uart14aReset Uart_after_SOC)"
    using MillerDecoding_framing [of Uart_after_SOC "0xFF" 0 0] sS wY by blast
  have c3: "MillerDecoding 0x33 0 0 Uart_after_X = (False, Uart14aReset Uart_after_X)"
    using MillerDecoding_framing [of Uart_after_X "0x33" 0 0] sX wB by blast
  have c4: "Uart_state (snd (MillerDecoding 0xF3 0 0 Uart_after_X)) = STATE_14A_MILLER_X
      \<and> Uart_bitCount (snd (MillerDecoding 0xF3 0 0 Uart_after_X)) = Uart_bitCount Uart_after_X + 1
      \<and> Uart_shiftReg (snd (MillerDecoding 0xF3 0 0 Uart_after_X))
          = drop_bit 1 (Uart_shiftReg Uart_after_X) OR 0x100"
    using MillerDecoding_framing [of Uart_after_X "0xF3" 0 0] sX(1,2,4) wX by blast
  have c5: "Uart_state (snd (MillerDecoding 0xF3 0 0 Uart_after_8_bits)) = STATE_14A_MILLER_X
      \<and> MillerDecoding 0xF3 0 0 Uart_after_8_bits \<noteq> (False, Uart14aReset Uart_after_8_bits)
      \<and> Uart_bitCount (snd (MillerDecoding 0xF3 0 0 Uart_after_8_bits)) = 0
      \<and> Uart_len (snd (MillerDecoding 0xF3 0 0 Uart_after_8_bits)) = Uart_len Uart_after_8_bits + 1
      \<and> Uart_output (snd (MillerDecoding 0xF3 0 0 Uart_after_8_bits)) =
           (Uart_output Uart_after_8_bits)[unat (Uart_len Uart_after_8_bits) :=
              ucast ((drop_bit 1 (Uart_shiftReg Uart_after_8_bits) OR 0x100) AND 0xff)]"
    using MillerDecoding_framing [of Uart_after_8_bits "0xF3" 0 0] s8(1,2,3) w8 by blast
  have c6: "MillerDecoding 0x3F 0 0 Uart_full = (True, Uart_full)"
    using MillerDecoding_framing [of Uart_full "0x3F" 0 0] sF by blast
  have b8: "ucast ((drop_bit 1 (0x180 :: u16) OR 0x100) AND 0xff) = (0xC0 :: u8)"
    by simp
  show ?thesis
    using c1 c2 c3 c4 c5 c6 by (simp add: sX(5,6) s8(4,5,6) b8)
qed

text \<open>
  C3 as stated fails: after an idle field, the start of communication and a Sequence X, a
  second Sequence X does not reset the decoder. It stays in \<open>STATE_14A_MILLER_X\<close> and
  holds two 1 bits.
\<close>

theorem MillerDecoding_X_after_X_counterexample:
  "Uart_state Uart_after_X = STATE_14A_MILLER_X
   \<and> \<not> IsMillerModulationNibble1 (Uart_window 0xF3 Uart_after_X)
   \<and> IsMillerModulationNibble2 (Uart_window 0xF3 Uart_after_X)
   \<and> MillerDecoding 0xF3 0 0 Uart_after_X \<noteq> (False, Uart14aReset Uart_after_X)
   \<and> Uart_state (snd (MillerDecoding 0xF3 0 0 Uart_after_X)) = STATE_14A_MILLER_X
   \<and> Uart_bitCount (snd (MillerDecoding 0xF3 0 0 Uart_after_X)) = 2
   \<and> Uart_shiftReg (snd (MillerDecoding 0xF3 0 0 Uart_after_X)) = 0x180"
  by (simp add: Uart_after_X_eq Miller_eval MillerDecoding_def Let_def Uart_full_byte_def
      Uart_end_time_def Uart14aReset_def)

lemma Demod_add_one_commute:
  "Demod_add_one (D\<lparr>Demod_twoBits := t, Demod_collisionPos := c\<rparr>)
     = (Demod_add_one D)\<lparr>Demod_twoBits := t, Demod_collisionPos := c\<rparr>"
  by (cases D) (simp add: Demod_add_one_def Demod_store_byte_def Demod_end_time_def Let_def)

lemma Demod_add_one_collisionPos:
  "Demod_collisionPos (Demod_add_one D) = Demod_collisionPos D"
proof -
  have "Demod_add_one D = Demod_add_one (D\<lparr>Demod_twoBits := Demod_twoBits D,
      Demod_collisionPos := Demod_collisionPos D\<rparr>)"
    by simp
  also have "\<dots> = (Demod_add_one D)\<lparr>Demod_twoBits := Demod_twoBits D,
      Demod_collisionPos := Demod_collisionPos D\<rparr>"
    by (rule Demod_add_one_commute)
  finally have "Demod_collisionPos (Demod_add_one D) =
      Demod_collisionPos ((Demod_add_one D)\<lparr>Demod_twoBits := Demod_twoBits D,
        Demod_collisionPos := Demod_collisionPos D\<rparr>)"
    by simp
  then show ?thesis by simp
qed

lemma Demod_add_one_twoBits:
  "Demod_add_one (D\<lparr>Demod_twoBits := t\<rparr>) = (Demod_add_one D)\<lparr>Demod_twoBits := t\<rparr>"
proof -
  have "Demod_add_one (D\<lparr>Demod_twoBits := t\<rparr>)
      = Demod_add_one (D\<lparr>Demod_twoBits := t, Demod_collisionPos := Demod_collisionPos D\<rparr>)"
    by simp
  also have "\<dots> = (Demod_add_one D)\<lparr>Demod_twoBits := t,
      Demod_collisionPos := Demod_collisionPos (Demod_add_one D)\<rparr>"
    by (simp only: Demod_add_one_commute Demod_add_one_collisionPos)
  finally show ?thesis by simp
qed

lemma Demod_add_one_no_store:
  "Demod_bitCount D + 1 \<noteq> 9 \<Longrightarrow>
     Demod_shiftReg (Demod_add_one D) = drop_bit 1 (Demod_shiftReg D) OR 0x100
     \<and> Demod_bitCount (Demod_add_one D) = Demod_bitCount D + 1"
  by (simp add: Demod_add_one_def Let_def)

lemma ManchesterDecoding_first_half:
  assumes "Demod_state D = DEMOD_14A_MANCHESTER_DATA" and "Demod_len D \<noteq> Demod_output_len D"
    and "IsManchesterModulationNibble1 (Demod_window b D)"
  shows "ManchesterDecoding b offset nrt now D =
     (False, Demod_add_one
        (D\<lparr>Demod_twoBits := push_bit 8 (Demod_twoBits D) OR ucast b,
           Demod_collisionPos :=
             (if IsManchesterModulationNibble2 (Demod_window b D) \<and> Demod_collisionPos D = 0
              then push_bit 3 (Demod_len D) + Demod_bitCount D else Demod_collisionPos D)\<rparr>))"
  using assms by (simp add: ManchesterDecoding_def Demod_window_def Let_def)

lemma parity_bit_one: "ucast (drop_bit 8 (drop_bit 1 (x :: u16) OR 0x100) AND 0x01) = (1 :: u8)"
  by (rule bit_word_eqI) (auto simp add: bit_simps bit_1_iff)

lemma Demod_add_one_store:
  "Demod_bitCount D + 1 = 9 \<Longrightarrow>
     Demod_shiftReg (Demod_add_one D) = 0
     \<and> Demod_bitCount (Demod_add_one D) = 0
     \<and> Demod_len (Demod_add_one D) = Demod_len D + 1
     \<and> Demod_output (Demod_add_one D) =
          (Demod_output D)[unat (Demod_len D) := ucast ((drop_bit 1 (Demod_shiftReg D) OR 0x100) AND 0xff)]
     \<and> (if (Demod_len D + 1) AND 0x0007 = 0
         then Demod_parity (Demod_add_one D) =
                (Demod_parity D)[unat (Demod_parityLen D) := push_bit 1 (Demod_parityBits D) OR 1]
         else Demod_parityBits (Demod_add_one D) = push_bit 1 (Demod_parityBits D) OR 1)"
  by (simp add: Demod_add_one_def Demod_store_byte_def Let_def parity_bit_one)

lemma Demod_add_one_keep:
  "Demod_bitCount D + 1 \<noteq> 9 \<Longrightarrow>
     Demod_len (Demod_add_one D) = Demod_len D \<and> Demod_output (Demod_add_one D) = Demod_output D"
  by (simp add: Demod_add_one_def Let_def)

text \<open>
  C4 (as amended). In the synchronised Manchester decoder, with room left in the output
  buffer, a nibble pair with modulation in both halves is a collision. If no collision has
  been recorded yet (\<open>collisionPos = 0\<close>) and the colliding bit is not the very first bit,
  \<open>collisionPos\<close> is set to \<open>(len << 3) + bitCount\<close>, the 0-based index of the colliding
  bit (the number of bits before it, counted from the \<open>offset\<close> the frame started with);
  a position recorded earlier is kept. The colliding bit is decoded as a 1: a 1 is shifted
  into bit 8 of the shift register, at the ninth position the byte is stored with parity
  bit 1, and apart from \<open>collisionPos\<close> and the sample window the decoder ends in the
  state that any Sequence D (\<open>b'\<close>) leads to.
\<close>

theorem ManchesterDecoding_collision:
  assumes "Demod_state D = DEMOD_14A_MANCHESTER_DATA" and "Demod_len D \<noteq> Demod_output_len D"
    and "IsManchesterModulationNibble1 (Demod_window b D)"
    and "IsManchesterModulationNibble2 (Demod_window b D)"
  shows "fst (ManchesterDecoding b offset nrt now D) = False
    \<and> (Demod_collisionPos D = 0 \<and> push_bit 3 (Demod_len D) + Demod_bitCount D \<noteq> 0 \<longrightarrow>
         Demod_collisionPos (snd (ManchesterDecoding b offset nrt now D)) =
           push_bit 3 (Demod_len D) + Demod_bitCount D)
    \<and> (Demod_collisionPos D \<noteq> 0 \<longrightarrow>
         Demod_collisionPos (snd (ManchesterDecoding b offset nrt now D)) = Demod_collisionPos D)
    \<and> (Demod_bitCount D + 1 \<noteq> 9 \<longrightarrow>
         Demod_shiftReg (snd (ManchesterDecoding b offset nrt now D)) = drop_bit 1 (Demod_shiftReg D) OR 0x100
         \<and> Demod_bitCount (snd (ManchesterDecoding b offset nrt now D)) = Demod_bitCount D + 1
         \<and> Demod_len (snd (ManchesterDecoding b offset nrt now D)) = Demod_len D
         \<and> Demod_output (snd (ManchesterDecoding b offset nrt now D)) = Demod_output D)
    \<and> (Demod_bitCount D + 1 = 9 \<longrightarrow>
         Demod_shiftReg (snd (ManchesterDecoding b offset nrt now D)) = 0
         \<and> Demod_bitCount (snd (ManchesterDecoding b offset nrt now D)) = 0
         \<and> Demod_len (snd (ManchesterDecoding b offset nrt now D)) = Demod_len D + 1
         \<and> Demod_output (snd (ManchesterDecoding b offset nrt now D)) =
              (Demod_output D)[unat (Demod_len D) :=
                 ucast ((drop_bit 1 (Demod_shiftReg D) OR 0x100) AND 0xff)]
         \<and> (if (Demod_len D + 1) AND 0x0007 = 0
             then Demod_parity (snd (ManchesterDecoding b offset nrt now D)) =
                    (Demod_parity D)[unat (Demod_parityLen D) := push_bit 1 (Demod_parityBits D) OR 1]
             else Demod_parityBits (snd (ManchesterDecoding b offset nrt now D)) =
                    push_bit 1 (Demod_parityBits D) OR 1))
    \<and> (\<forall>b'. IsManchesterModulationNibble1 (Demod_window b' D)
            \<and> \<not> IsManchesterModulationNibble2 (Demod_window b' D) \<longrightarrow>
          snd (ManchesterDecoding b offset nrt now D) =
            (snd (ManchesterDecoding b' offset nrt now D))
               \<lparr>Demod_twoBits := push_bit 8 (Demod_twoBits D) OR ucast b,
                Demod_collisionPos := Demod_collisionPos (snd (ManchesterDecoding b offset nrt now D))\<rparr>)"
proof -
  let ?c = "if Demod_collisionPos D = 0 then push_bit 3 (Demod_len D) + Demod_bitCount D
            else Demod_collisionPos D"
  let ?t = "push_bit 8 (Demod_twoBits D) OR ucast b"
  let ?R = "(Demod_add_one D)\<lparr>Demod_twoBits := ?t, Demod_collisionPos := ?c\<rparr>"
  have r: "ManchesterDecoding b offset nrt now D = (False, ?R)"
    using ManchesterDecoding_first_half [OF assms(1,2,3), of offset nrt now] assms(4)
    by (simp add: Demod_add_one_commute)
  have r': "ManchesterDecoding b' offset nrt now D =
      (False, (Demod_add_one D)\<lparr>Demod_twoBits := push_bit 8 (Demod_twoBits D) OR ucast b'\<rparr>)"
    if "IsManchesterModulationNibble1 (Demod_window b' D)"
      "\<not> IsManchesterModulationNibble2 (Demod_window b' D)" for b'
    using ManchesterDecoding_first_half [OF assms(1,2) that(1), of offset nrt now] that(2)
    by (simp add: Demod_add_one_twoBits)
  have c1: "fst (ManchesterDecoding b offset nrt now D) = False"
    by (simp add: r)
  have c2: "Demod_collisionPos (snd (ManchesterDecoding b offset nrt now D)) = ?c"
    by (simp add: r)
  have c4: "Demod_bitCount D + 1 \<noteq> 9 \<longrightarrow>
         Demod_shiftReg (snd (ManchesterDecoding b offset nrt now D)) = drop_bit 1 (Demod_shiftReg D) OR 0x100
         \<and> Demod_bitCount (snd (ManchesterDecoding b offset nrt now D)) = Demod_bitCount D + 1
         \<and> Demod_len (snd (ManchesterDecoding b offset nrt now D)) = Demod_len D
         \<and> Demod_output (snd (ManchesterDecoding b offset nrt now D)) = Demod_output D"
    using Demod_add_one_no_store [of D] Demod_add_one_keep [of D] by (simp add: r)
  have c5: "Demod_bitCount D + 1 = 9 \<longrightarrow>
         Demod_shiftReg (snd (ManchesterDecoding b offset nrt now D)) = 0
         \<and> Demod_bitCount (snd (ManchesterDecoding b offset nrt now D)) = 0
         \<and> Demod_len (snd (ManchesterDecoding b offset nrt now D)) = Demod_len D + 1
         \<and> Demod_output (snd (ManchesterDecoding b offset nrt now D)) =
              (Demod_output D)[unat (Demod_len D) :=
                 ucast ((drop_bit 1 (Demod_shiftReg D) OR 0x100) AND 0xff)]
         \<and> (if (Demod_len D + 1) AND 0x0007 = 0
             then Demod_parity (snd (ManchesterDecoding b offset nrt now D)) =
                    (Demod_parity D)[unat (Demod_parityLen D) := push_bit 1 (Demod_parityBits D) OR 1]
             else Demod_parityBits (snd (ManchesterDecoding b offset nrt now D)) =
                    push_bit 1 (Demod_parityBits D) OR 1)"
    using Demod_add_one_store [of D] by (simp add: r)
  have c6: "\<forall>b'. IsManchesterModulationNibble1 (Demod_window b' D)
            \<and> \<not> IsManchesterModulationNibble2 (Demod_window b' D) \<longrightarrow>
          snd (ManchesterDecoding b offset nrt now D) =
            (snd (ManchesterDecoding b' offset nrt now D))
               \<lparr>Demod_twoBits := push_bit 8 (Demod_twoBits D) OR ucast b,
                Demod_collisionPos := Demod_collisionPos (snd (ManchesterDecoding b offset nrt now D))\<rparr>"
    by (simp add: r r')
  have c2a: "Demod_collisionPos D = 0 \<and> push_bit 3 (Demod_len D) + Demod_bitCount D \<noteq> 0 \<longrightarrow>
         Demod_collisionPos (snd (ManchesterDecoding b offset nrt now D)) =
           push_bit 3 (Demod_len D) + Demod_bitCount D"
    using c2 by simp
  have c3: "Demod_collisionPos D \<noteq> 0 \<longrightarrow>
         Demod_collisionPos (snd (ManchesterDecoding b offset nrt now D)) = Demod_collisionPos D"
    using c2 by simp
  show ?thesis
    by (rule conjI [OF c1 conjI [OF c2a conjI [OF c3 conjI [OF c4 conjI [OF c5 c6]]]]])
qed


lemma Demod_after_start_eq:
  "Demod_after_start =
     \<lparr>Demod_state = DEMOD_14A_MANCHESTER_DATA, Demod_twoBits = 0x00F0,
      Demod_highCnt = 2, Demod_bitCount = 0, Demod_collisionPos = 0,
      Demod_syncBit = 0, Demod_parityBits = 0, Demod_parityLen = 0,
      Demod_shiftReg = 0, Demod_samples = 0, Demod_len = 0,
      Demod_output_len = 8, Demod_startTime = 0, Demod_endTime = 0,
      Demod_output = [0, 0, 0, 0, 0, 0, 0, 0], Demod_parity = [0, 0]\<rparr>"
  by code_simp

lemma Demod_after_bit_eq:
  "Demod_after_bit =
     \<lparr>Demod_state = DEMOD_14A_MANCHESTER_DATA, Demod_twoBits = 0xF0F0,
      Demod_highCnt = 2, Demod_bitCount = 1, Demod_collisionPos = 0,
      Demod_syncBit = 0, Demod_parityBits = 0, Demod_parityLen = 0,
      Demod_shiftReg = 0x100, Demod_samples = 0, Demod_len = 0,
      Demod_output_len = 8, Demod_startTime = 0, Demod_endTime = 12,
      Demod_output = [0, 0, 0, 0, 0, 0, 0, 0], Demod_parity = [0, 0]\<rparr>"
  by code_simp

lemmas Manchester_eval =
  Demod_window_def IsManchesterModulationNibble1_def IsManchesterModulationNibble2_def
  Mod_Manchester_LUT_def


lemma Demod_skewed_eq:
  "Demod_skewed =
     \<lparr>Demod_state = DEMOD_14A_MANCHESTER_DATA, Demod_twoBits = 0x787F,
      Demod_highCnt = 2, Demod_bitCount = 1, Demod_collisionPos = 0,
      Demod_syncBit = 7, Demod_parityBits = 0, Demod_parityLen = 0,
      Demod_shiftReg = 0x100, Demod_samples = 0, Demod_len = 0,
      Demod_output_len = 8, Demod_startTime = 0xFFFFFFF9, Demod_endTime = 5,
      Demod_output = [0, 0, 0, 0, 0, 0, 0, 0], Demod_parity = [0, 0]\<rparr>"
  by code_simp

lemma Demod_after_8_bits_eq:
  "Demod_after_8_bits =
     \<lparr>Demod_state = DEMOD_14A_MANCHESTER_DATA, Demod_twoBits = 0xF0F0,
      Demod_highCnt = 2, Demod_bitCount = 8, Demod_collisionPos = 0,
      Demod_syncBit = 0, Demod_parityBits = 0, Demod_parityLen = 0,
      Demod_shiftReg = 0x1FE, Demod_samples = 0, Demod_len = 0,
      Demod_output_len = 8, Demod_startTime = 0, Demod_endTime = 68,
      Demod_output = [0, 0, 0, 0, 0, 0, 0, 0], Demod_parity = [0, 0]\<rparr>"
  by code_simp

text \<open>
  The theorem on three running decoders. After one decoded bit a collision in the second
  bit is recorded as position 1, and the result is that of the Sequence D \<open>0xF0\<close> but for
  \<open>collisionPos\<close> and the window. At \<open>Demod_skewed\<close>, where no sample byte is a
  Sequence D, position 1 is recorded as well. After eight decoded bits a collision in the
  parity position is recorded as position 8 and the byte \<open>0xFF\<close> is stored with parity 1.
\<close>

theorem ManchesterDecoding_collision_witness:
  "fst (ManchesterDecoding 0xFF 0 0 0 Demod_after_bit) = False
   \<and> Demod_collisionPos (snd (ManchesterDecoding 0xFF 0 0 0 Demod_after_bit)) = 1
   \<and> snd (ManchesterDecoding 0xFF 0 0 0 Demod_after_bit) =
        (snd (ManchesterDecoding 0xF0 0 0 0 Demod_after_bit))
           \<lparr>Demod_twoBits := 0xF0FF, Demod_collisionPos := 1\<rparr>
   \<and> Demod_shiftReg (snd (ManchesterDecoding 0xFF 0 0 0 Demod_after_bit)) = 0x180
   \<and> Demod_bitCount (snd (ManchesterDecoding 0xFF 0 0 0 Demod_after_bit)) = 2
   \<and> Demod_collisionPos (snd (ManchesterDecoding 0x00 0 0 0 Demod_skewed)) = 1
   \<and> Demod_shiftReg (snd (ManchesterDecoding 0x00 0 0 0 Demod_skewed)) = 0x180
   \<and> Demod_collisionPos (snd (ManchesterDecoding 0xFF 0 0 0 Demod_after_8_bits)) = 8
   \<and> Demod_len (snd (ManchesterDecoding 0xFF 0 0 0 Demod_after_8_bits)) = 1
   \<and> Demod_output (snd (ManchesterDecoding 0xFF 0 0 0 Demod_after_8_bits)) = [0xFF, 0, 0, 0, 0, 0, 0, 0]
   \<and> Demod_parityBits (snd (ManchesterDecoding 0xFF 0 0 0 Demod_after_8_bits)) = 1"
proof -
  have h: "Demod_state Demod_after_bit = DEMOD_14A_MANCHESTER_DATA"
    "Demod_len Demod_after_bit \<noteq> Demod_output_len Demod_after_bit"
    "IsManchesterModulationNibble1 (Demod_window 0xFF Demod_after_bit)"
    "IsManchesterModulationNibble2 (Demod_window 0xFF Demod_after_bit)"
    by (simp_all add: Demod_after_bit_eq Manchester_eval)
  have h': "IsManchesterModulationNibble1 (Demod_window 0xF0 Demod_after_bit)
      \<and> \<not> IsManchesterModulationNibble2 (Demod_window 0xF0 Demod_after_bit)"
    by (simp add: Demod_after_bit_eq Manchester_eval)
  have v: "Demod_collisionPos Demod_after_bit = 0" "Demod_len Demod_after_bit = 0"
    "Demod_bitCount Demod_after_bit = 1" "Demod_shiftReg Demod_after_bit = 0x100"
    "Demod_twoBits Demod_after_bit = 0xF0F0"
    by (simp_all add: Demod_after_bit_eq)
  note t = ManchesterDecoding_collision [OF h, of 0 0 0]
  have c1: "fst (ManchesterDecoding 0xFF 0 0 0 Demod_after_bit) = False"
    using t [THEN conjunct1] by simp
  have c2: "Demod_collisionPos (snd (ManchesterDecoding 0xFF 0 0 0 Demod_after_bit)) = 1"
    using t [THEN conjunct2, THEN conjunct1] by (simp add: v)
  have "snd (ManchesterDecoding 0xFF 0 0 0 Demod_after_bit) =
        (snd (ManchesterDecoding 0xF0 0 0 0 Demod_after_bit))
           \<lparr>Demod_twoBits := push_bit 8 (Demod_twoBits Demod_after_bit) OR ucast (0xFF :: u8),
            Demod_collisionPos := Demod_collisionPos (snd (ManchesterDecoding 0xFF 0 0 0 Demod_after_bit))\<rparr>"
    using t [THEN conjunct2, THEN conjunct2, THEN conjunct2, THEN conjunct2, THEN conjunct2] h'
    by blast
  then have c3: "snd (ManchesterDecoding 0xFF 0 0 0 Demod_after_bit) =
        (snd (ManchesterDecoding 0xF0 0 0 0 Demod_after_bit))
           \<lparr>Demod_twoBits := 0xF0FF, Demod_collisionPos := 1\<rparr>"
    by (simp only: c2 v) simp
  have c4: "Demod_shiftReg (snd (ManchesterDecoding 0xFF 0 0 0 Demod_after_bit)) = 0x180
   \<and> Demod_bitCount (snd (ManchesterDecoding 0xFF 0 0 0 Demod_after_bit)) = 2"
    using t [THEN conjunct2, THEN conjunct2, THEN conjunct2, THEN conjunct1] by (simp add: v)
  have k: "Demod_state Demod_skewed = DEMOD_14A_MANCHESTER_DATA"
    "Demod_len Demod_skewed \<noteq> Demod_output_len Demod_skewed"
    "IsManchesterModulationNibble1 (Demod_window 0x00 Demod_skewed)"
    "IsManchesterModulationNibble2 (Demod_window 0x00 Demod_skewed)"
    by (simp_all add: Demod_skewed_eq Manchester_eval)
  have kv: "Demod_collisionPos Demod_skewed = 0" "Demod_len Demod_skewed = 0"
    "Demod_bitCount Demod_skewed = 1" "Demod_shiftReg Demod_skewed = 0x100"
    by (simp_all add: Demod_skewed_eq)
  note tk = ManchesterDecoding_collision [OF k, of 0 0 0]
  have c5: "Demod_collisionPos (snd (ManchesterDecoding 0x00 0 0 0 Demod_skewed)) = 1"
    using tk [THEN conjunct2, THEN conjunct1] by (simp add: kv)
  have c6: "Demod_shiftReg (snd (ManchesterDecoding 0x00 0 0 0 Demod_skewed)) = 0x180"
    using tk [THEN conjunct2, THEN conjunct2, THEN conjunct2, THEN conjunct1] by (simp add: kv)
  have e: "Demod_state Demod_after_8_bits = DEMOD_14A_MANCHESTER_DATA"
    "Demod_len Demod_after_8_bits \<noteq> Demod_output_len Demod_after_8_bits"
    "IsManchesterModulationNibble1 (Demod_window 0xFF Demod_after_8_bits)"
    "IsManchesterModulationNibble2 (Demod_window 0xFF Demod_after_8_bits)"
    by (simp_all add: Demod_after_8_bits_eq Manchester_eval)
  have ev: "Demod_collisionPos Demod_after_8_bits = 0" "Demod_len Demod_after_8_bits = 0"
    "Demod_bitCount Demod_after_8_bits = 8" "Demod_shiftReg Demod_after_8_bits = 0x1FE"
    "Demod_output Demod_after_8_bits = [0, 0, 0, 0, 0, 0, 0, 0]"
    "Demod_parityBits Demod_after_8_bits = 0"
    by (simp_all add: Demod_after_8_bits_eq)
  note te = ManchesterDecoding_collision [OF e, of 0 0 0]
  have c7: "Demod_collisionPos (snd (ManchesterDecoding 0xFF 0 0 0 Demod_after_8_bits)) = 8"
    using te [THEN conjunct2, THEN conjunct1] by (simp add: ev)
  have c8: "Demod_len (snd (ManchesterDecoding 0xFF 0 0 0 Demod_after_8_bits)) = 1
   \<and> Demod_output (snd (ManchesterDecoding 0xFF 0 0 0 Demod_after_8_bits)) = [0xFF, 0, 0, 0, 0, 0, 0, 0]
   \<and> Demod_parityBits (snd (ManchesterDecoding 0xFF 0 0 0 Demod_after_8_bits)) = 1"
    using te [THEN conjunct2, THEN conjunct2, THEN conjunct2, THEN conjunct2, THEN conjunct1]
    by (simp add: ev)
  show ?thesis
    using c1 c2 c3 c4 c5 c6 c7 c8 by blast
qed

text \<open>
  C4 as stated fails: the position is not 1-based. A collision in the first data bit after
  the start bit leaves \<open>collisionPos = 0\<close>, the value that also stands for "no
  collision", and a collision in the second data bit gives 1.
\<close>

theorem ManchesterDecoding_collision_counterexample:
  "Demod_state Demod_after_start = DEMOD_14A_MANCHESTER_DATA
   \<and> Demod_len Demod_after_start = 0 \<and> Demod_bitCount Demod_after_start = 0
   \<and> Demod_collisionPos Demod_after_start = 0
   \<and> IsManchesterModulationNibble1 (Demod_window 0xFF Demod_after_start)
   \<and> IsManchesterModulationNibble2 (Demod_window 0xFF Demod_after_start)
   \<and> Demod_collisionPos (snd (ManchesterDecoding 0xFF 0 0 0 Demod_after_start)) = 0
   \<and> Demod_collisionPos (snd (ManchesterDecoding 0xFF 0 0 0 Demod_after_start)) \<noteq> 1
   \<and> Demod_collisionPos (snd (ManchesterDecoding 0xFF 0 0 0 Demod_after_bit)) = 1
   \<and> Demod_collisionPos (snd (ManchesterDecoding 0xFF 0 0 0 Demod_after_bit)) \<noteq> 2"
  by (simp add: Demod_after_start_eq Demod_after_bit_eq Manchester_eval ManchesterDecoding_def Let_def
      Demod_add_one_def Demod_end_time_def)

text \<open>The CRC model reproduces the two frames that the source spells out with their CRC.\<close>

lemma AddCrc14A_Fudan_read: "AddCrc14A [0x30, 0x01, 0x00, 0x00] 2 = [0x30, 0x01, 0x8B, 0xB9]"
  by (simp add: AddCrc14A_def crc14a_def update_crc16_def Let_def)

lemma AddCrc14A_RATS: "AddCrc14A [0xE0, 0x80, 0x00, 0x00] 2 = [0xE0, 0x80, 0x31, 0x73]"
  by (simp add: AddCrc14A_def crc14a_def update_crc16_def Let_def)

text \<open>
  C6. Before the full SELECT is issued during anticollision, the received fifth byte is
  compared with \<open>uid[0] ^ uid[1] ^ uid[2] ^ uid[3]\<close>. If they agree the frame carries that
  byte. On a mismatch \<open>hf14aconfig.forcebcc\<close> decides: with 0 the selection returns 0,
  with 1 the BCC byte of the frame is the computed XOR, with 2 it is the byte the card
  sent. In each transmitted frame the CRC follows the BCC.
\<close>

theorem select_uid_command_bcc:
  assumes "uid_resp = [u0, u1, u2, u3, b]"
  shows "(b = u0 XOR u1 XOR u2 XOR u3 \<longrightarrow>
            select_uid_command forcebcc True cascade_level uid_resp =
              Inr (AddCrc14A [0x93 + 2 * of_nat cascade_level, 0x70, u0, u1, u2, u3, b, 0, 0] 7))
       \<and> (b \<noteq> u0 XOR u1 XOR u2 XOR u3 \<and> forcebcc = 0 \<longrightarrow>
            select_uid_command forcebcc True cascade_level uid_resp = Inl 0)
       \<and> (b \<noteq> u0 XOR u1 XOR u2 XOR u3 \<and> forcebcc = 1 \<longrightarrow>
            select_uid_command forcebcc True cascade_level uid_resp =
              Inr (AddCrc14A [0x93 + 2 * of_nat cascade_level, 0x70, u0, u1, u2, u3,
                              u0 XOR u1 XOR u2 XOR u3, 0, 0] 7))
       \<and> (b \<noteq> u0 XOR u1 XOR u2 XOR u3 \<and> forcebcc = 2 \<longrightarrow>
            select_uid_command forcebcc True cascade_level uid_resp =
              Inr (AddCrc14A [0x93 + 2 * of_nat cascade_level, 0x70, u0, u1, u2, u3, b, 0, 0] 7))"
  using assms by (simp add: select_uid_command_def memcpy_at_def Let_def)

text \<open>
  The four cases for the UID \<open>DE AD BE EF\<close>, whose BCC is \<open>0x22\<close>: a correct BCC, and
  the wrong BCC \<open>0x00\<close> under each of the three policies.
\<close>

theorem select_uid_command_bcc_witness:
  "select_uid_command 0 True 0 [0xDE, 0xAD, 0xBE, 0xEF, 0x22]
      = Inr [0x93, 0x70, 0xDE, 0xAD, 0xBE, 0xEF, 0x22, 0xB9, 0x9C]
   \<and> select_uid_command 0 True 0 [0xDE, 0xAD, 0xBE, 0xEF, 0x00] = Inl 0
   \<and> select_uid_command 1 True 0 [0xDE, 0xAD, 0xBE, 0xEF, 0x00]
      = Inr [0x93, 0x70, 0xDE, 0xAD, 0xBE, 0xEF, 0x22, 0xB9, 0x9C]
   \<and> select_uid_command 2 True 0 [0xDE, 0xAD, 0xBE, 0xEF, 0x00]
      = Inr [0x93, 0x70, 0xDE, 0xAD, 0xBE, 0xEF, 0x00, 0xA9, 0x9E]"
proof -
  have c: "AddCrc14A [0x93, 0x70, 0xDE, 0xAD, 0xBE, 0xEF, 0x22, 0, 0] 7
             = [0x93, 0x70, 0xDE, 0xAD, 0xBE, 0xEF, 0x22, 0xB9, 0x9C]"
    "AddCrc14A [0x93, 0x70, 0xDE, 0xAD, 0xBE, 0xEF, 0x00, 0, 0] 7
             = [0x93, 0x70, 0xDE, 0xAD, 0xBE, 0xEF, 0x00, 0xA9, 0x9E]"
    by (simp_all add: AddCrc14A_def crc14a_def update_crc16_def Let_def)
  show ?thesis
    using select_uid_command_bcc [of "[0xDE, 0xAD, 0xBE, 0xEF, 0x22]" "0xDE" "0xAD" "0xBE" "0xEF" "0x22" 0 0]
      select_uid_command_bcc [of "[0xDE, 0xAD, 0xBE, 0xEF, 0x00]" "0xDE" "0xAD" "0xBE" "0xEF" "0x00" 0 0]
      select_uid_command_bcc [of "[0xDE, 0xAD, 0xBE, 0xEF, 0x00]" "0xDE" "0xAD" "0xBE" "0xEF" "0x00" 1 0]
      select_uid_command_bcc [of "[0xDE, 0xAD, 0xBE, 0xEF, 0x00]" "0xDE" "0xAD" "0xBE" "0xEF" "0x00" 2 0]
    by (simp add: c)
qed

declare dist_nt_loop.simps [simp del]

lemma bit_ff00ff: "bit (0xff00ff :: u32) n \<longleftrightarrow> n < 8 \<or> (16 \<le> n \<and> n < 24)"
proof -
  have "(0xff00ff :: u32) = mask 8 OR push_bit 16 (mask 8)" by (simp add: mask_eq_exp_minus_1)
  then show ?thesis by (simp only: bit_or_iff bit_push_bit_iff bit_mask_iff) auto
qed

lemma bit_SWAPENDIAN:
  "bit (SWAPENDIAN x) n \<longleftrightarrow>
     n < 32 \<and> bit x (if n < 8 then n + 24 else if n < 16 then n + 8
                      else if n < 24 then n - 8 else n - 24)"
  apply (simp only: SWAPENDIAN_def Let_def bit_or_iff bit_and_iff bit_drop_bit_eq o_def
      bit_push_bit_iff possible_bit_word bit_ff00ff)
  apply (auto simp add: add.commute dest: bit_imp_le_length)
  done

lemma SWAPENDIAN_involution [simp]: "SWAPENDIAN (SWAPENDIAN x) = x"
  apply (rule bit_word_eqI)
  apply (simp only: bit_SWAPENDIAN)
  apply auto
  done

lemma prng_loop_add: "prng_loop (a + b) x = prng_loop b (prng_loop a x)"
  by (induction a arbitrary: x) simp_all

lemma prng_successor_0 [simp]: "prng_successor x 0 = x"
  by (simp add: prng_successor_def)

lemma prng_successor_add:
  "prng_successor (prng_successor x a) b = prng_successor x (a + b)"
  by (simp add: prng_successor_def prng_loop_add)

lemma prng_successor_Suc: "prng_successor (prng_successor x i) 1 = prng_successor x (Suc i)"
  by (simp add: prng_successor_add)

lemma prng_successor_pred:
  "0 < i \<Longrightarrow> prng_successor (prng_successor x (i - 1)) 1 = prng_successor x i"
  by (simp add: prng_successor_add)

text \<open>
  One turn of the loop, entered at step \<open>i\<close> with the two nonces advanced \<open>i - 1\<close>
  times.
\<close>

lemma dist_nt_loop_unfold:
  assumes "0 < i" and "i < 32768"
  shows "dist_nt_loop nt1 nt2 i (prng_successor nt1 (i - 1)) (prng_successor nt2 (i - 1)) =
     (if prng_successor nt1 i = nt2 then int i
      else if prng_successor nt2 i = nt1 then - int i
      else dist_nt_loop nt1 nt2 (Suc i) (prng_successor nt1 (Suc i - 1)) (prng_successor nt2 (Suc i - 1)))"
proof -
  have s: "prng_successor (prng_successor nt1 (i - 1)) 1 = prng_successor nt1 i"
    "prng_successor (prng_successor nt2 (i - 1)) 1 = prng_successor nt2 i"
    using assms(1) by (simp_all only: prng_successor_pred)
  show ?thesis
    by (subst dist_nt_loop.simps) (simp only: s assms(2) if_True Let_def Suc_eq_plus1 add_diff_cancel_right')
qed

lemma dist_nt_loop_end:
  "\<not> i < 32768 \<Longrightarrow> dist_nt_loop nt1 nt2 i t1 t2 = -99999"
  by (subst dist_nt_loop.simps) simp

lemma dist_nt_loop_none:
  assumes "0 < i"
    and "\<forall>j. i \<le> j \<and> j < 32768 \<longrightarrow> prng_successor nt1 j \<noteq> nt2 \<and> prng_successor nt2 j \<noteq> nt1"
  shows "dist_nt_loop nt1 nt2 i (prng_successor nt1 (i - 1)) (prng_successor nt2 (i - 1)) = -99999"
  using assms
proof (induction "32768 - i" arbitrary: i)
  case 0
  then show ?case by (simp add: dist_nt_loop_end)
next
  case (Suc d)
  then have i: "i < 32768" by simp
  have h: "prng_successor nt1 i \<noteq> nt2" "prng_successor nt2 i \<noteq> nt1"
    using Suc.prems(2) i by auto
  have "d = 32768 - Suc i" using Suc.hyps(2) by simp
  moreover have "\<forall>j. Suc i \<le> j \<and> j < 32768 \<longrightarrow>
      prng_successor nt1 j \<noteq> nt2 \<and> prng_successor nt2 j \<noteq> nt1"
    using Suc.prems(2) by auto
  ultimately have "dist_nt_loop nt1 nt2 (Suc i) (prng_successor nt1 (Suc i - 1))
      (prng_successor nt2 (Suc i - 1)) = -99999"
    using Suc.hyps(1) [of "Suc i"] by simp
  then show ?case
    using h by (simp only: dist_nt_loop_unfold [OF Suc.prems(1) i] if_False)
qed

lemma dist_nt_loop_first:
  assumes "0 < i" and "i \<le> k" and "k < 32768"
    and "\<forall>j. i \<le> j \<and> j < k \<longrightarrow> prng_successor nt1 j \<noteq> nt2 \<and> prng_successor nt2 j \<noteq> nt1"
    and "prng_successor nt1 k = nt2 \<or> prng_successor nt2 k = nt1"
  shows "dist_nt_loop nt1 nt2 i (prng_successor nt1 (i - 1)) (prng_successor nt2 (i - 1))
       = (if prng_successor nt1 k = nt2 then int k else - int k)"
  using assms
proof (induction "k - i" arbitrary: i)
  case 0
  then have ik: "i = k" by simp
  have k: "0 < k" "k < 32768" using 0 ik by simp_all
  show ?case
    unfolding ik using 0(6) by (simp only: dist_nt_loop_unfold [OF k]) auto
next
  case (Suc d)
  then have i: "i < k" "i < 32768" by simp_all
  have h: "prng_successor nt1 i \<noteq> nt2" "prng_successor nt2 i \<noteq> nt1"
    using Suc.prems(4) i by auto
  have "d = k - Suc i" using Suc.hyps(2) by simp
  moreover have "\<forall>j. Suc i \<le> j \<and> j < k \<longrightarrow>
      prng_successor nt1 j \<noteq> nt2 \<and> prng_successor nt2 j \<noteq> nt1"
    using Suc.prems(4) by auto
  ultimately have "dist_nt_loop nt1 nt2 (Suc i) (prng_successor nt1 (Suc i - 1))
      (prng_successor nt2 (Suc i - 1)) = (if prng_successor nt1 k = nt2 then int k else - int k)"
    using Suc.hyps(1) [of "Suc i"] Suc.prems(3,5) i by simp
  then show ?case
    using h by (simp only: dist_nt_loop_unfold [OF Suc.prems(1) i(2)] if_False)
qed


lemma dist_nt_first_hit:
  assumes "nt1 \<noteq> nt2" and "0 < k" and "k < 32768"
    and "\<forall>j. 0 < j \<and> j < k \<longrightarrow> prng_successor nt1 j \<noteq> nt2 \<and> prng_successor nt2 j \<noteq> nt1"
    and "prng_successor nt1 k = nt2 \<or> prng_successor nt2 k = nt1"
  shows "dist_nt nt1 nt2 = (if prng_successor nt1 k = nt2 then int k else - int k)"
proof -
  have "dist_nt_loop nt1 nt2 1 (prng_successor nt1 (1 - 1)) (prng_successor nt2 (1 - 1))
      = (if prng_successor nt1 k = nt2 then int k else - int k)"
    using assms by (intro dist_nt_loop_first) auto
  then show ?thesis using assms(1) by (simp add: dist_nt_def)
qed

lemma dist_nt_no_hit:
  assumes "\<forall>i<32768. prng_successor a i \<noteq> b \<and> prng_successor b i \<noteq> a"
  shows "dist_nt a b = -99999"
proof -
  have ne: "a \<noteq> b" using assms [rule_format, of 0] by simp
  have "dist_nt_loop a b 1 (prng_successor a (1 - 1)) (prng_successor b (1 - 1)) = -99999"
    using assms by (intro dist_nt_loop_none) auto
  then show ?thesis using ne by (simp add: dist_nt_def)
qed

lemma dist_nt_successor:
  assumes "k < 32768" and "distinct (map (prng_successor nt) [0..<2 * k])"
  shows "dist_nt nt (prng_successor nt k) = int k"
proof (cases "k = 0")
  case True
  then show ?thesis by (simp add: dist_nt_def)
next
  case False
  have inj: "prng_successor nt i \<noteq> prng_successor nt j" if "i < 2 * k" "j < 2 * k" "i \<noteq> j" for i j
    using assms(2) that by (auto simp add: distinct_conv_nth)
  have ne: "nt \<noteq> prng_successor nt k"
    using inj [of 0 k] False by simp
  have before: "\<forall>j. 0 < j \<and> j < k \<longrightarrow>
      prng_successor nt j \<noteq> prng_successor nt k \<and> prng_successor (prng_successor nt k) j \<noteq> nt"
  proof (intro allI impI)
    fix j assume j: "0 < j \<and> j < k"
    have "prng_successor nt j \<noteq> prng_successor nt k" using inj [of j k] j by simp
    moreover have "prng_successor nt (k + j) \<noteq> prng_successor nt 0"
      using inj [of "k + j" 0] j by simp
    ultimately show "prng_successor nt j \<noteq> prng_successor nt k
        \<and> prng_successor (prng_successor nt k) j \<noteq> nt"
      by (simp add: prng_successor_add)
  qed
  show ?thesis
    using dist_nt_first_hit [OF ne _ assms(1) before] False by simp
qed

lemma prng_loop_0 [simp]: "prng_loop n 0 = 0"
  by (induction n) (simp_all add: prng_step_def)

lemma SWAPENDIAN_0 [simp]: "SWAPENDIAN 0 = 0"
  by (simp add: SWAPENDIAN_def)

lemma prng_successor_zero [simp]: "prng_successor 0 n = 0"
  by (simp add: prng_successor_def)

lemma prng_successor_dies:
  assumes "prng_loop m (SWAPENDIAN x) = 0" and "m \<le> n"
  shows "prng_successor x n = 0"
proof -
  have "prng_loop n (SWAPENDIAN x) = prng_loop (n - m) (prng_loop m (SWAPENDIAN x))"
    using assms(2) prng_loop_add [of m "n - m"] by simp
  then show ?thesis by (simp add: prng_successor_def assms(1))
qed

lemma linear16_0: "linear16 F \<Longrightarrow> F 0 = 0"
proof -
  assume "linear16 F"
  then have "F (0 XOR 0) = F 0 XOR F 0" unfolding linear16_def by blast
  then show ?thesis by simp
qed

lemma linear16_xor: "linear16 F \<Longrightarrow> F (x XOR y) = F x XOR F y"
  by (simp add: linear16_def)

lemma mv_xor: "mv A (x XOR y) = mv A x XOR mv A y"
proof (induction A arbitrary: x y)
  case Nil
  then show ?case by simp
next
  case (Cons a A)
  show ?case
    by (simp add: drop_bit_xor Cons bit_xor_iff ac_simps)
qed

lemma linear16_mv: "linear16 (mv A)"
  by (simp add: linear16_def mv_xor)

lemma linear16_lfsr16: "linear16 lfsr16"
  by (simp add: linear16_def lfsr16_def drop_bit_xor push_bit_xor ac_simps)

lemma linear16_funpow: "linear16 F \<Longrightarrow> linear16 (F ^^ n)"
  by (induction n) (simp_all add: linear16_def)

lemma lfsr_reg_step: "lfsr_reg (prng_step x) = lfsr16 (lfsr_reg x)"
  unfolding lfsr_reg_def lfsr16_def prng_step_def
  by (rule bit_word_eqI) (auto simp add: bit_simps dest: bit_imp_le_length)

lemma lfsr_reg_loop: "lfsr_reg (prng_loop n x) = (lfsr16 ^^ n) (lfsr_reg x)"
  by (induction n arbitrary: x) (simp_all add: lfsr_reg_step funpow_swap1)

lemma take_bit_Suc_xor:
  "take_bit (Suc n) (w :: u16)
     = (if bit w 0 then 1 else 0) XOR push_bit 1 (take_bit n (drop_bit 1 w))"
proof (rule bit_word_eqI)
  fix m
  assume "m < LENGTH(16)"
  show "bit (take_bit (Suc n) w) m
      = bit ((if bit w 0 then 1 else 0) XOR push_bit 1 (take_bit n (drop_bit 1 w))) m"
  proof (cases m)
    case 0
    then show ?thesis
      by (simp only: bit_xor_iff bit_take_bit_iff bit_push_bit_iff bit_drop_bit_eq possible_bit_word
          o_def bit_1_iff split: if_splits) auto
  next
    case (Suc m')
    then show ?thesis
      using \<open>m < LENGTH(16)\<close>
      by (simp only: bit_xor_iff bit_take_bit_iff bit_push_bit_iff bit_drop_bit_eq possible_bit_word
          o_def bit_1_iff split: if_splits) auto
  qed
qed

lemma linear16_shift: "linear16 F \<Longrightarrow> linear16 (\<lambda>v. F (push_bit 1 v))"
  unfolding linear16_def push_bit_xor by blast

lemma mv_table:
  "linear16 F \<Longrightarrow> mv (map (\<lambda>i. F (push_bit i 1)) [0..<n]) w = F (take_bit n w)"
proof (induction n arbitrary: F w)
  case 0
  then show ?case by (simp add: linear16_0)
next
  case (Suc n)
  have l: "map (\<lambda>i. F (push_bit i 1)) [0..<Suc n]
      = F 1 # map (\<lambda>i. F (push_bit 1 (push_bit i 1))) [0..<n]"
    by (simp only: upt_conv_Cons [of 0 "Suc n"] map_Suc_upt [symmetric] list.map map_map o_def
        push_bit_Suc [symmetric] push_bit_push_bit) simp
  have "mv (map (\<lambda>i. F (push_bit 1 (push_bit i 1))) [0..<n]) (drop_bit 1 w)
      = F (push_bit 1 (take_bit n (drop_bit 1 w)))"
    using Suc.IH [OF linear16_shift [OF Suc.prems], of "drop_bit 1 w"] .
  then show ?case
    unfolding l take_bit_Suc_xor [of n w]
    by (simp add: linear16_xor [OF Suc.prems] linear16_0 [OF Suc.prems])
qed

lemma mv_unit_table:
  assumes "linear16 F"
  shows "mv (map F unit_table) w = F w"
proof -
  have "mv (map (\<lambda>i. F (push_bit i 1)) [0..<16]) w = F (take_bit 16 w)"
    by (rule mv_table [OF assms])
  moreover have "take_bit 16 w = w"
    by (rule bit_word_eqI) (auto simp add: bit_simps dest: bit_imp_le_length)
  ultimately show ?thesis by (simp add: unit_table_def comp_def)
qed

lemma mul_tables:
  assumes "linear16 F"
  shows "mul (map F unit_table) (map G unit_table) = map (\<lambda>v. F (G v)) unit_table"
  by (simp add: mul_def mv_unit_table [OF assms])

lemma funpow_tpow: "(lfsr16 ^^ n) v = mv (tpow n) v"
  by (simp add: tpow_def mv_unit_table [OF linear16_funpow [OF linear16_lfsr16]])

lemma tpow_double: "tpow (n + n) = tsq (tpow n)"
  by (simp add: tpow_def tsq_def mul_tables [OF linear16_funpow [OF linear16_lfsr16]] funpow_add)

lemma tpow_Suc: "tpow (Suc n) = mul lfsr_table (tpow n)"
  by (simp add: tpow_def lfsr_table_def mul_tables [OF linear16_lfsr16])

lemma tpow_One: "tpow (numeral Num.One) = lfsr_table"
  by (simp add: tpow_def lfsr_table_def)

lemma tpow_Suc_0: "tpow (Suc 0) = lfsr_table"
  by (simp add: tpow_def lfsr_table_def)

lemma tpow_Bit0: "tpow (numeral (Num.Bit0 k)) = tsq (tpow (numeral k))"
  using tpow_double [of "numeral k"] by (simp only: numeral_Bit0)

lemma tpow_Bit1: "tpow (numeral (Num.Bit1 k)) = mul lfsr_table (tsq (tpow (numeral k)))"
  using tpow_Suc [of "numeral k + numeral k"] tpow_double [of "numeral k"]
  by (simp only: numeral_Bit1 Suc_eq_plus1)

lemma unit_table_eq:
  "unit_table = [0x0001, 0x0002, 0x0004, 0x0008, 0x0010, 0x0020, 0x0040, 0x0080,
                 0x0100, 0x0200, 0x0400, 0x0800, 0x1000, 0x2000, 0x4000, 0x8000]"
  by (simp add: unit_table_def upt_rec)

lemma lfsr_table_eq:
  "lfsr_table = [0x8000, 0x0001, 0x8002, 0x8004, 0x0008, 0x8010, 0x0020, 0x0040,
                 0x0080, 0x0100, 0x0200, 0x0400, 0x0800, 0x1000, 0x2000, 0x4000]"
  by (simp add: lfsr_table_def unit_table_eq lfsr16_def)


lemma tpow_add: "tpow (a + b) = mul (tpow a) (tpow b)"
  by (simp add: tpow_def mul_tables [OF linear16_funpow [OF linear16_lfsr16]] funpow_add)

text \<open>
  The tables of the step counts that matter: the proper divisors 255, 3855, 13107 and
  21845 of 65535 that every other proper divisor divides, on the way to them 15, 240, 3840,
  4369, 8738 and 43690, and 65535 itself, which gives the unit table.
\<close>

lemma tpow_15:
  "tpow 15 =
     [0xD002, 0xA004, 0x900A, 0xF016, 0xE02C, 0x105A, 0x20B4, 0x4168,
      0x82D0, 0x05A0, 0x0B40, 0x1680, 0x2D00, 0x5A00, 0xB400, 0x6801]"
  by (simp add: tpow_One tpow_Suc_0 tpow_Bit1 lfsr_table_eq tsq_def mul_def)

lemma tpow_240:
  "tpow 240 =
     [0x91C7, 0x238F, 0xD6D9, 0x3C75, 0x78EA, 0x6012, 0xC024, 0x8048,
      0x0091, 0x0123, 0x0247, 0x048E, 0x091C, 0x1238, 0x2471, 0x48E3]"
  by (simp add: tpow_Bit0 tpow_15 tsq_def mul_def)

lemma tpow_255:
  "tpow 255 =
     [0x4601, 0x8C02, 0x5E05, 0xFA0A, 0xF414, 0xAE28, 0x5C51, 0xB8A3,
      0x7146, 0xE28C, 0xC518, 0x8A30, 0x1460, 0x28C0, 0x5180, 0xA300]"
  using tpow_add [of 240 15] by (simp add: tpow_240 tpow_15 mul_def)

lemma tpow_3840:
  "tpow 3840 =
     [0x203C, 0x4078, 0xA0CD, 0x61A6, 0xC34C, 0xA6A4, 0x4D48, 0x9A90,
      0x3520, 0x6A40, 0xD480, 0xA901, 0x5203, 0xA407, 0x480F, 0x901E]"
  by (simp add: tpow_Bit0 tpow_15 tsq_def mul_def)

lemma tpow_3855:
  "tpow 3855 =
     [0xCA6A, 0x94D4, 0xE3C3, 0x0DEC, 0x1BD9, 0xFDD9, 0xFBB2, 0xF765,
      0xEECA, 0xDD94, 0xBB29, 0x7653, 0xECA6, 0xD94D, 0xB29A, 0x6535]"
  using tpow_add [of 3840 15] by (simp add: tpow_3840 tpow_15 mul_def)

lemma tpow_4369:
  "tpow 4369 =
     [0x2079, 0x40F3, 0xA19F, 0x6347, 0xC68E, 0xAD64, 0x5AC8, 0xB590,
      0x6B20, 0xD640, 0xAC81, 0x5903, 0xB207, 0x640F, 0xC81E, 0x903C]"
  by (simp add: tpow_One tpow_Suc_0 tpow_Bit0 tpow_Bit1 lfsr_table_eq tsq_def mul_def)

lemma tpow_8738:
  "tpow 8738 =
     [0x1613, 0x2C26, 0x4E5F, 0x8AAC, 0x1558, 0x3CA2, 0x7945, 0xF28B,
      0xE516, 0xCA2C, 0x9458, 0x28B0, 0x5161, 0xA2C2, 0x4584, 0x8B09]"
  using tpow_add [of 4369 4369] by (simp add: tpow_4369 mul_def)

lemma tpow_13107:
  "tpow 13107 =
     [0x6EC2, 0xDD85, 0xD5C8, 0xC553, 0x8AA7, 0x7B8D, 0xF71B, 0xEE37,
      0xDC6E, 0xB8DD, 0x71BB, 0xE376, 0xC6EC, 0x8DD8, 0x1BB0, 0x3761]"
  using tpow_add [of 8738 4369] by (simp add: tpow_8738 tpow_4369 mul_def)

lemma tpow_21845:
  "tpow 21845 =
     [0x366A, 0x6CD5, 0xEFC0, 0xE9EB, 0xD3D6, 0x91C6, 0x238D, 0x471B,
      0x8E36, 0x1C6C, 0x38D9, 0x71B3, 0xE366, 0xC6CD, 0x8D9A, 0x1B35]"
  using tpow_add [of 13107 8738] by (simp add: tpow_13107 tpow_8738 mul_def)

lemma tpow_43690:
  "tpow 43690 =
     [0x366B, 0x6CD7, 0xEFC4, 0xE9E3, 0xD3C6, 0x91E6, 0x23CD, 0x479B,
      0x8F36, 0x1E6C, 0x3CD9, 0x79B3, 0xF366, 0xE6CD, 0xCD9A, 0x9B35]"
  using tpow_add [of 21845 21845] by (simp add: tpow_21845 mul_def)

lemma tpow_65535: "tpow 65535 = unit_table"
  using tpow_add [of 43690 21845] by (simp add: tpow_43690 tpow_21845 mul_def unit_table_eq)

lemma linear16_id: "linear16 (\<lambda>v. v)"
  by (simp add: linear16_def)

lemma linear16_comp: "linear16 F \<Longrightarrow> linear16 G \<Longrightarrow> linear16 (\<lambda>v. F (G v))"
  by (simp add: linear16_def)

lemma mv_unit: "mv unit_table v = v"
  using mv_unit_table [OF linear16_id, of v] by simp

lemma lfsr16_period: "(lfsr16 ^^ 65535) v = v"
  by (simp only: funpow_tpow tpow_65535 mv_unit)

text \<open>
  If a table \<open>N\<close> inverts the map \<open>v \<mapsto> step\<^sup>d v XOR v\<close>, the \<open>d\<close>-fold step fixes no
  register but 0.
\<close>

lemma fix_table: "map (\<lambda>e. (lfsr16 ^^ d) e XOR e) xs = map2 (XOR) (map (lfsr16 ^^ d) xs) xs"
  by (induction xs) simp_all

lemma no_fixed_register:
  assumes "mul N (map2 (XOR) (tpow d) unit_table) = unit_table"
    and "(lfsr16 ^^ d) v = v"
  shows "v = 0"
proof -
  let ?G = "\<lambda>e. (lfsr16 ^^ d) e XOR e"
  have lG: "linear16 ?G"
    using linear16_funpow [OF linear16_lfsr16, of d]
    by (simp add: linear16_def ac_simps)
  have lN: "linear16 (\<lambda>e. mv N (?G e))"
    by (rule linear16_comp [OF linear16_mv lG])
  have "mv N (?G v) = mv (map (\<lambda>e. mv N (?G e)) unit_table) v"
    using mv_unit_table [OF lN, of v] by simp
  also have "map (\<lambda>e. mv N (?G e)) unit_table = mul N (map ?G unit_table)"
    by (simp add: mul_def)
  also have "map ?G unit_table = map2 (XOR) (tpow d) unit_table"
    by (simp only: fix_table tpow_def)
  finally have "mv N (?G v) = v"
    by (simp only: assms(1) mv_unit)
  moreover have "?G v = 0" using assms(2) by simp
  moreover have "mv N 0 = 0" by (rule linear16_0 [OF linear16_mv])
  ultimately show ?thesis by simp
qed

lemma no_fixed_255: "(lfsr16 ^^ 255) v = v \<Longrightarrow> v = 0"
proof (rule no_fixed_register)
  show "mul
     [0x8CAA, 0x1954, 0xBE02, 0xF0AE, 0xE15D, 0x4E11, 0x9C23, 0x3846,
      0x708C, 0xE119, 0xC232, 0x8465, 0x08CA, 0x1195, 0x232A, 0x4655]
     (map2 (XOR) (tpow 255) unit_table) = unit_table"
    by (simp add: tpow_255 unit_table_eq mul_def)
qed

lemma no_fixed_3855: "(lfsr16 ^^ 3855) v = v \<Longrightarrow> v = 0"
proof (rule no_fixed_register)
  show "mul
     [0xBDFD, 0x7BFB, 0x4A0B, 0x29EA, 0x53D5, 0x1A57, 0x34AF, 0x695E,
      0xD2BD, 0xA57B, 0x4AF7, 0x95EF, 0x2BDF, 0x57BF, 0xAF7F, 0x5EFE]
     (map2 (XOR) (tpow 3855) unit_table) = unit_table"
    by (simp add: tpow_3855 unit_table_eq mul_def)
qed

lemma no_fixed_13107: "(lfsr16 ^^ 13107) v = v \<Longrightarrow> v = 0"
proof (rule no_fixed_register)
  show "mul
     [0x2079, 0x40F3, 0xA19F, 0x6347, 0xC68E, 0xAD64, 0x5AC8, 0xB590,
      0x6B20, 0xD640, 0xAC81, 0x5903, 0xB207, 0x640F, 0xC81E, 0x903C]
     (map2 (XOR) (tpow 13107) unit_table) = unit_table"
    by (simp add: tpow_13107 unit_table_eq mul_def)
qed

lemma no_fixed_21845: "(lfsr16 ^^ 21845) v = v \<Longrightarrow> v = 0"
proof (rule no_fixed_register)
  show "mul
     [0x366A, 0x6CD5, 0xEFC0, 0xE9EB, 0xD3D6, 0x91C6, 0x238D, 0x471B,
      0x8E36, 0x1C6C, 0x38D9, 0x71B3, 0xE366, 0xC6CD, 0x8D9A, 0x1B35]
     (map2 (XOR) (tpow 21845) unit_table) = unit_table"
    by (simp add: tpow_21845 unit_table_eq mul_def)
qed


text \<open>The step counts that fix a register are closed under multiples, differences and gcd.\<close>

lemma fixed_mult: "(lfsr16 ^^ a) v = v \<Longrightarrow> (lfsr16 ^^ (k * a)) v = v"
  by (induction k) (simp_all add: funpow_add)

lemma fixed_diff: "(lfsr16 ^^ a) v = v \<Longrightarrow> (lfsr16 ^^ (b + a)) v = v \<Longrightarrow> (lfsr16 ^^ b) v = v"
  by (simp add: funpow_add)

lemma fixed_gcd: "(lfsr16 ^^ a) v = v \<Longrightarrow> (lfsr16 ^^ b) v = v \<Longrightarrow> (lfsr16 ^^ gcd a b) v = v"
proof (induction a b rule: gcd_nat_induct)
  case (step m n)
  have "(lfsr16 ^^ (m div n * n)) v = v"
    by (rule fixed_mult [OF step.prems(2)])
  moreover have "(lfsr16 ^^ (m mod n + m div n * n)) v = v"
    using step.prems(1) by (simp add: add.commute)
  ultimately have "(lfsr16 ^^ (m mod n)) v = v"
    by (rule fixed_diff)
  then have "(lfsr16 ^^ gcd n (m mod n)) v = v"
    using step.IH step.prems(2) by simp
  then show ?case by (simp add: gcd_red_nat [of m n])
qed simp

text \<open>
  The factors 3, 5, 17 and 257 of 65535 have no divisors but 1 and themselves, so a number
  that divides 65535 and is not 1 is a multiple of one of them.
\<close>

lemma no_divisor_257: "\<forall>d\<in>set [2..<17]. \<not> d dvd (257 :: nat)"
  by (simp add: upt_rec)

lemma divisors_257:
  assumes "d dvd (257 :: nat)"
  shows "d = 1 \<or> d = 257"
proof -
  obtain e where e: "257 = d * e" using assms by (auto simp add: dvd_def)
  have d0: "0 < d" and e0: "0 < e" using e by (auto intro: Nat.gr0I)
  have small: "x dvd 257 \<Longrightarrow> 0 < x \<Longrightarrow> x < 17 \<Longrightarrow> x = 1" for x :: nat
  proof -
    assume x: "x dvd 257" "0 < x" "x < 17"
    show "x = 1"
    proof (rule ccontr)
      assume "x \<noteq> 1"
      then have "2 \<le> x \<and> x < 17" using x(2,3) by arith
      then have "x \<in> set [2..<17]" by (simp only: set_upt atLeastLessThan_iff)
      then show False using no_divisor_257 x(1) by blast
    qed
  qed
  have "d < 17 \<or> e < 17"
  proof (rule ccontr)
    assume "\<not> (d < 17 \<or> e < 17)"
    then have "17 * 17 \<le> d * e" by (intro mult_le_mono) simp_all
    then show False using e by simp
  qed
  then show ?thesis
  proof
    assume "d < 17"
    then show ?thesis using small [OF assms d0] by simp
  next
    assume "e < 17"
    moreover have "e dvd 257" using dvd_triv_right [of e d] by (simp only: e [symmetric])
    ultimately have "e = 1" using small e0 by simp
    then show ?thesis using e by simp
  qed
qed

lemma divisors_checked:
  assumes "\<forall>x\<in>set [2..<p]. \<not> x dvd p" and "0 < p" and "d dvd (p :: nat)"
  shows "d = 1 \<or> d = p"
proof (rule ccontr)
  assume n: "\<not> (d = 1 \<or> d = p)"
  have "d \<le> p" using assms(2,3) by (simp add: dvd_imp_le)
  moreover have "d \<noteq> 0" using assms(2,3) by auto
  ultimately have "2 \<le> d \<and> d < p" using n by arith
  then have "d \<in> set [2..<p]" by (simp only: set_upt atLeastLessThan_iff)
  then show False using assms(1,3) by blast
qed

lemma divisors_small:
  "d dvd (3 :: nat) \<Longrightarrow> d = 1 \<or> d = 3"
  "d dvd (5 :: nat) \<Longrightarrow> d = 1 \<or> d = 5"
  "d dvd (17 :: nat) \<Longrightarrow> d = 1 \<or> d = 17"
proof -
  have "\<forall>x\<in>set [2..<3]. \<not> x dvd (3 :: nat)" by (simp add: upt_rec)
  then show "d dvd (3 :: nat) \<Longrightarrow> d = 1 \<or> d = 3" by (rule divisors_checked) simp_all
  have "\<forall>x\<in>set [2..<5]. \<not> x dvd (5 :: nat)" by (simp add: upt_rec)
  then show "d dvd (5 :: nat) \<Longrightarrow> d = 1 \<or> d = 5" by (rule divisors_checked) simp_all
  have "\<forall>x\<in>set [2..<17]. \<not> x dvd (17 :: nat)" by (simp add: upt_rec)
  then show "d dvd (17 :: nat) \<Longrightarrow> d = 1 \<or> d = 17" by (rule divisors_checked) simp_all
qed

lemma dvd_or_coprime:
  assumes "\<And>d. d dvd p \<Longrightarrow> d = 1 \<or> d = p"
  shows "p dvd q \<or> coprime q (p :: nat)"
proof -
  have "gcd q p = 1 \<or> gcd q p = p" using assms [of "gcd q p"] by simp
  then show ?thesis
  proof
    assume "gcd q p = 1"
    then show ?thesis by (simp add: coprime_iff_gcd_eq_1)
  next
    assume "gcd q p = p"
    then show ?thesis by (metis gcd_dvd1)
  qed
qed

lemma factor_of_65535:
  assumes "q dvd (65535 :: nat)" and "q \<noteq> 1"
  shows "3 dvd q \<or> 5 dvd q \<or> 17 dvd q \<or> 257 dvd q"
proof (rule ccontr)
  assume n: "\<not> (3 dvd q \<or> 5 dvd q \<or> 17 dvd q \<or> 257 dvd q)"
  have c: "coprime q 3" "coprime q 5" "coprime q 17" "coprime q 257"
    using n dvd_or_coprime [of 3 q] dvd_or_coprime [of 5 q] dvd_or_coprime [of 17 q]
      dvd_or_coprime [of 257 q] divisors_small divisors_257
    by blast+
  have "q dvd 3 * (5 * (17 * 257))" using assms(1) by simp
  then have "q dvd 5 * (17 * 257)" using c(1) by (simp only: coprime_dvd_mult_right_iff)
  then have "q dvd 17 * 257" using c(2) by (simp only: coprime_dvd_mult_right_iff)
  then have "q dvd 257" using c(3) by (simp only: coprime_dvd_mult_right_iff)
  then have "q dvd 257 * 1" by simp
  then have "q dvd 1" using c(4) by (simp only: coprime_dvd_mult_right_iff)
  then show False using assms(2) by simp
qed

lemma proper_divisor_65535:
  assumes "g dvd (65535 :: nat)" and "g \<noteq> 65535"
  shows "g dvd 255 \<or> g dvd 3855 \<or> g dvd 13107 \<or> g dvd 21845"
proof -
  obtain q where q: "65535 = g * q" using assms(1) by (auto simp add: dvd_def)
  have "q dvd 65535" using dvd_triv_right [of q g] by (simp only: q [symmetric])
  moreover have "q \<noteq> 1" using q assms(2) by auto
  ultimately have "3 dvd q \<or> 5 dvd q \<or> 17 dvd q \<or> 257 dvd q"
    by (rule factor_of_65535)
  then show ?thesis
  proof (elim disjE)
    assume "3 dvd q"
    then obtain r where "q = 3 * r" by (auto simp add: dvd_def)
    then have "3 * 21845 = 3 * (g * r)" using q by simp
    then have "21845 = g * r" by simp
    then show ?thesis using dvd_triv_left [of g r] by simp
  next
    assume "5 dvd q"
    then obtain r where "q = 5 * r" by (auto simp add: dvd_def)
    then have "5 * 13107 = 5 * (g * r)" using q by simp
    then have "13107 = g * r" by simp
    then show ?thesis using dvd_triv_left [of g r] by simp
  next
    assume "17 dvd q"
    then obtain r where "q = 17 * r" by (auto simp add: dvd_def)
    then have "17 * 3855 = 17 * (g * r)" using q by simp
    then have "3855 = g * r" by simp
    then show ?thesis using dvd_triv_left [of g r] by simp
  next
    assume "257 dvd q"
    then obtain r where "q = 257 * r" by (auto simp add: dvd_def)
    then have "257 * 255 = 257 * (g * r)" using q by simp
    then have "255 = g * r" by simp
    then show ?thesis using dvd_triv_left [of g r] by simp
  qed
qed

text \<open>A register other than 0 comes back after 65535 steps and not before.\<close>

lemma lfsr16_no_short_cycle:
  assumes "(lfsr16 ^^ m) v = v" and "0 < m" and "m < 65535"
  shows "v = 0"
proof -
  let ?g = "gcd m 65535"
  have f: "(lfsr16 ^^ ?g) v = v"
    by (rule fixed_gcd [OF assms(1) lfsr16_period])
  have "?g dvd m" by simp
  then have "?g \<le> m" using assms(2) by (rule dvd_imp_le)
  then have "?g \<noteq> 65535" using assms(3) by simp
  moreover have "?g dvd 65535" by simp
  ultimately consider "?g dvd 255" | "?g dvd 3855" | "?g dvd 13107" | "?g dvd 21845"
    using proper_divisor_65535 by blast
  then show ?thesis
  proof cases
    case 1
    then obtain k where k: "k * ?g = 255" by (metis dvd_div_mult_self)
    have "(lfsr16 ^^ (k * ?g)) v = v" by (rule fixed_mult [OF f])
    then have "(lfsr16 ^^ 255) v = v" by (simp only: k)
    then show ?thesis by (rule no_fixed_255)
  next
    case 2
    then obtain k where k: "k * ?g = 3855" by (metis dvd_div_mult_self)
    have "(lfsr16 ^^ (k * ?g)) v = v" by (rule fixed_mult [OF f])
    then have "(lfsr16 ^^ 3855) v = v" by (simp only: k)
    then show ?thesis by (rule no_fixed_3855)
  next
    case 3
    then obtain k where k: "k * ?g = 13107" by (metis dvd_div_mult_self)
    have "(lfsr16 ^^ (k * ?g)) v = v" by (rule fixed_mult [OF f])
    then have "(lfsr16 ^^ 13107) v = v" by (simp only: k)
    then show ?thesis by (rule no_fixed_13107)
  next
    case 4
    then obtain k where k: "k * ?g = 21845" by (metis dvd_div_mult_self)
    have "(lfsr16 ^^ (k * ?g)) v = v" by (rule fixed_mult [OF f])
    then have "(lfsr16 ^^ 21845) v = v" by (simp only: k)
    then show ?thesis by (rule no_fixed_21845)
  qed
qed

lemma lfsr16_funpow_0: "(lfsr16 ^^ n) 0 = 0"
  by (rule linear16_0 [OF linear16_funpow [OF linear16_lfsr16]])

lemma lfsr16_funpow_inj0:
  assumes "(lfsr16 ^^ i) v = 0"
  shows "v = 0"
proof -
  have "(lfsr16 ^^ (i * 65535)) v = v"
    by (rule fixed_mult [OF lfsr16_period])
  moreover have "i * 65535 = i * 65534 + i" by simp
  ultimately have "(lfsr16 ^^ (i * 65534 + i)) v = v"
    by (simp only:)
  then have "(lfsr16 ^^ (i * 65534)) ((lfsr16 ^^ i) v) = v"
    by (simp only: funpow_add o_apply)
  then show ?thesis by (simp only: assms lfsr16_funpow_0)
qed

lemma SWAPENDIAN_inj: "SWAPENDIAN x = SWAPENDIAN y \<Longrightarrow> x = y"
  by (metis SWAPENDIAN_involution)

text \<open>
  The register read from the byte-swapped nonce consists of the low 16 bits of the
  nonce.
\<close>

lemma lfsr_reg_SWAPENDIAN: "lfsr_reg (SWAPENDIAN nt) = 0 \<longleftrightarrow> nt AND 0xFFFF = 0"
proof
  assume z: "lfsr_reg (SWAPENDIAN nt) = 0"
  show "nt AND 0xFFFF = 0"
  proof (rule bit_word_eqI)
    fix n
    assume n: "n < LENGTH(32)"
    have m: "(0xFFFF :: u32) = mask 16" by (simp add: mask_eq_exp_minus_1)
    have "\<not> bit nt n" if "n < 16"
    proof -
      let ?j = "if n < 8 then n + 8 else n - 8"
      have "\<not> bit (lfsr_reg (SWAPENDIAN nt)) ?j" by (simp add: z)
      then show ?thesis
        using that
        by (simp only: lfsr_reg_def bit_ucast_iff bit_drop_bit_eq o_def bit_SWAPENDIAN possible_bit_word)
          (auto split: if_splits)
    qed
    then show "bit (nt AND 0xFFFF) n = bit (0 :: u32) n"
      by (auto simp add: m bit_and_iff bit_mask_iff)
  qed
next
  assume z: "nt AND 0xFFFF = 0"
  have m: "(0xFFFF :: u32) = mask 16" by (simp add: mask_eq_exp_minus_1)
  have low: "\<not> bit nt n" if "n < 16" for n
  proof -
    have "\<not> bit (nt AND mask 16) n" using z by (simp add: m)
    then show ?thesis using that by (simp add: bit_and_iff bit_mask_iff)
  qed
  show "lfsr_reg (SWAPENDIAN nt) = 0"
  proof (rule bit_word_eqI)
    fix n
    assume n: "n < LENGTH(16)"
    show "bit (lfsr_reg (SWAPENDIAN nt)) n = bit (0 :: u16) n"
      using n low [of "n + 8"] low [of "n - 8"]
      by (simp only: lfsr_reg_def bit_ucast_iff bit_drop_bit_eq o_def bit_SWAPENDIAN possible_bit_word)
        (auto simp add: add.commute split: if_splits)
  qed
qed

text \<open>
  With a register other than 0, two states of the PRNG sequence less than 65535 steps
  apart differ.
\<close>

lemma prng_successor_distinct:
  assumes "nt AND 0xFFFF \<noteq> 0" and "i < j" and "j - i < 65535"
  shows "prng_successor nt i \<noteq> prng_successor nt j"
proof
  assume "prng_successor nt i = prng_successor nt j"
  then have "prng_loop i (SWAPENDIAN nt) = prng_loop j (SWAPENDIAN nt)"
    unfolding prng_successor_def by (rule SWAPENDIAN_inj)
  then have "(lfsr16 ^^ i) (lfsr_reg (SWAPENDIAN nt)) = (lfsr16 ^^ j) (lfsr_reg (SWAPENDIAN nt))"
    by (simp only: lfsr_reg_loop [symmetric])
  moreover have "j = (j - i) + i" using assms(2) by simp
  ultimately have "(lfsr16 ^^ (j - i)) ((lfsr16 ^^ i) (lfsr_reg (SWAPENDIAN nt)))
      = (lfsr16 ^^ i) (lfsr_reg (SWAPENDIAN nt))"
    by (metis funpow_add o_apply)
  then have "(lfsr16 ^^ i) (lfsr_reg (SWAPENDIAN nt)) = 0"
    using assms(2,3) by (intro lfsr16_no_short_cycle [of "j - i"]) simp_all
  then have "lfsr_reg (SWAPENDIAN nt) = 0"
    by (rule lfsr16_funpow_inj0)
  then show False using assms(1) by (simp only: lfsr_reg_SWAPENDIAN)
qed

text \<open>With the register at 0 the step is a plain shift, and the nonce runs into 0.\<close>

lemma prng_step_zero_reg: "lfsr_reg x = 0 \<Longrightarrow> prng_step x = drop_bit 1 x \<and> lfsr_reg (drop_bit 1 x) = 0"
proof -
  assume z: "lfsr_reg x = 0"
  have hi: "\<not> bit x n" if "16 \<le> n" for n
  proof (cases "n < 32")
    case True
    have "\<not> bit (lfsr_reg x) (n - 16)" by (simp add: z)
    then show ?thesis using that True
      by (simp add: lfsr_reg_def bit_ucast_iff bit_drop_bit_eq)
  next
    case False
    then show ?thesis by (auto dest: bit_imp_le_length)
  qed
  have a: "prng_step x = drop_bit 1 x"
    unfolding prng_step_def
    by (rule bit_word_eqI) (auto simp add: bit_simps hi)
  have b: "lfsr_reg (drop_bit 1 x) = 0"
    unfolding lfsr_reg_def
    by (rule bit_word_eqI) (auto simp add: bit_simps hi)
  show ?thesis using a b by simp
qed

lemma prng_loop_zero_reg: "lfsr_reg x = 0 \<Longrightarrow> prng_loop n x = drop_bit n x"
proof (induction n arbitrary: x)
  case 0
  then show ?case by simp
next
  case (Suc n)
  have s: "prng_step x = drop_bit 1 x" "lfsr_reg (drop_bit 1 x) = 0"
    using prng_step_zero_reg [OF Suc.prems] by simp_all
  have "prng_loop (Suc n) x = drop_bit n (drop_bit 1 x)"
    using Suc.IH [OF s(2)] by (simp add: s(1))
  then show ?case by (simp add: drop_bit_drop_bit)
qed

lemma drop_bit_fixed: 
  assumes "drop_bit n (x :: u32) = x" and "0 < n"
  shows "x = 0"
proof (rule ccontr)
  assume "x \<noteq> 0"
  then have p: "0 < unat x" by (simp add: unat_gt_0)
  have "unat (drop_bit n x) = drop_bit n (unat x)"
    by (rule unat_drop_bit_eq)
  also have "\<dots> = unat x div 2 ^ n"
    by (rule drop_bit_eq_div)
  finally have "unat (drop_bit n x) = unat x div 2 ^ n" .
  moreover have "(1 :: nat) < 2 ^ n"
    using assms(2) one_less_power [of "2 :: nat" n] by simp
  then have "unat x div 2 ^ n < unat x"
    using p by (intro div_less_dividend)
  ultimately show False using assms(1) by simp
qed

lemma prng_successor_no_swap:
  assumes "a \<noteq> b" and "prng_successor a k = b" and "prng_successor b k = a"
    and "0 < k" and "k < 32768"
  shows False
proof -
  have c: "prng_successor a (k + k) = a"
    using assms(2,3) by (simp add: prng_successor_add [symmetric])
  show False
  proof (cases "a AND 0xFFFF = 0")
    case False
    have "prng_successor a 0 \<noteq> prng_successor a (k + k)"
      using assms(4,5) by (intro prng_successor_distinct [OF False]) simp_all
    then show False using c by simp
  next
    case True
    then have z: "lfsr_reg (SWAPENDIAN a) = 0" by (simp only: lfsr_reg_SWAPENDIAN)
    have "SWAPENDIAN (prng_successor a (k + k)) = SWAPENDIAN a" by (simp only: c)
    then have "drop_bit (k + k) (SWAPENDIAN a) = SWAPENDIAN a"
      by (simp add: prng_successor_def prng_loop_zero_reg [OF z])
    then have "SWAPENDIAN a = 0"
      using assms(4) by (intro drop_bit_fixed [of "k + k"]) simp_all
    then have "a = 0" by (metis SWAPENDIAN_involution SWAPENDIAN_0)
    then have "b = 0" using assms(2) by simp
    then show False using assms(1) \<open>a = 0\<close> by simp
  qed
qed

lemma dist_nt_successor_reg:
  assumes "nt AND 0xFFFF \<noteq> 0" and "k < 32768"
  shows "dist_nt nt (prng_successor nt k) = int k"
proof -
  have d: "prng_successor nt i \<noteq> prng_successor nt j" if "i < 2 * k" "j < 2 * k" "i \<noteq> j" for i j
  proof (cases "i < j")
    case True
    then show ?thesis using that assms(2) by (intro prng_successor_distinct [OF assms(1)]) simp_all
  next
    case False
    then have "j < i" using that(3) by simp
    then have "prng_successor nt j \<noteq> prng_successor nt i"
      using that assms(2) by (intro prng_successor_distinct [OF assms(1)]) simp_all
    then show ?thesis by simp
  qed
  have "distinct (map (prng_successor nt) [0..<2 * k])"
    using d by (simp add: distinct_conv_nth)
  then show ?thesis by (rule dist_nt_successor [OF assms(2)])
qed

lemma dist_nt_antisym_all:
  assumes "dist_nt a b \<noteq> -99999" and "dist_nt b a \<noteq> -99999"
  shows "dist_nt a b = - dist_nt b a"
proof (cases "a = b")
  case True
  then show ?thesis by (simp add: dist_nt_def)
next
  case False
  define H where "H j \<longleftrightarrow> 0 < j \<and> j < 32768 \<and> (prng_successor a j = b \<or> prng_successor b j = a)" for j
  have "\<exists>j. H j"
  proof (rule ccontr)
    assume "\<not> (\<exists>j. H j)"
    then have "\<forall>i<32768. prng_successor a i \<noteq> b \<and> prng_successor b i \<noteq> a"
      using False unfolding H_def by (metis neq0_conv prng_successor_0)
    then show False using dist_nt_no_hit assms(1) by blast
  qed
  then obtain k where k: "H k" "\<forall>m<k. \<not> H m"
    using exists_least_iff [of H] by blast
  have kb: "0 < k" "k < 32768" using k(1) by (simp_all add: H_def)
  have before: "\<forall>j. 0 < j \<and> j < k \<longrightarrow> prng_successor a j \<noteq> b \<and> prng_successor b j \<noteq> a"
    using k(2) kb unfolding H_def by auto
  then have before': "\<forall>j. 0 < j \<and> j < k \<longrightarrow> prng_successor b j \<noteq> a \<and> prng_successor a j \<noteq> b"
    by blast
  have hit: "prng_successor a k = b \<or> prng_successor b k = a" using k(1) by (simp add: H_def)
  then have hit': "prng_successor b k = a \<or> prng_successor a k = b" by blast
  have ab: "dist_nt a b = (if prng_successor a k = b then int k else - int k)"
    by (rule dist_nt_first_hit [OF False kb before hit])
  have ba: "dist_nt b a = (if prng_successor b k = a then int k else - int k)"
    using dist_nt_first_hit [OF _ kb before' hit'] False by auto
  have "\<not> (prng_successor a k = b \<and> prng_successor b k = a)"
    using prng_successor_no_swap [OF False _ _ kb] by blast
  then show ?thesis using hit by (auto simp add: ab ba)
qed

text \<open>
  With the register at 0 the nonce reaches 0 after 16 steps at the latest and stays
  there, so the distance to its 17th successor is not found as 17.
\<close>

lemma dist_nt_zero_register:
  assumes "nt AND 0xFFFF = 0"
  shows "prng_successor nt 17 = prng_successor nt 16"
    and "dist_nt nt (prng_successor nt 17) \<noteq> 17"
proof -
  have z: "lfsr_reg (SWAPENDIAN nt) = 0" using assms by (simp only: lfsr_reg_SWAPENDIAN)
  have hi: "drop_bit 16 (SWAPENDIAN nt) = 0"
  proof (rule bit_word_eqI)
    fix n
    assume "n < LENGTH(32)"
    have "\<not> bit (lfsr_reg (SWAPENDIAN nt)) n" by (simp add: z)
    then show "bit (drop_bit 16 (SWAPENDIAN nt)) n = bit (0 :: u32) n"
      by (auto simp add: lfsr_reg_def bit_ucast_iff bit_drop_bit_eq dest: bit_imp_le_length)
  qed
  have s: "prng_successor nt (16 + m) = 0" for m
  proof -
    have "prng_loop (16 + m) (SWAPENDIAN nt) = drop_bit m (drop_bit 16 (SWAPENDIAN nt))"
      by (simp add: prng_loop_zero_reg [OF z] drop_bit_drop_bit add.commute)
    then show ?thesis by (simp add: prng_successor_def hi)
  qed
  have s16: "prng_successor nt 16 = 0" using s [of 0] by simp
  have s17: "prng_successor nt 17 = 0" using s [of 1] by simp
  show "prng_successor nt 17 = prng_successor nt 16" by (simp add: s16 s17)
  show "dist_nt nt (prng_successor nt 17) \<noteq> 17"
  proof (cases "nt = 0")
    case True
    then show ?thesis by (simp add: dist_nt_def)
  next
    case False
    define H where "H j \<longleftrightarrow> 0 < j \<and> j < 32768 \<and> (prng_successor nt j = 0 \<or> prng_successor 0 j = nt)" for j
    have "H 16" by (simp add: H_def s16)
    then obtain k where k: "H k" "\<forall>m<k. \<not> H m"
      using exists_least_iff [of H] by blast
    have k16: "k \<le> 16" using k(2) \<open>H 16\<close> by (meson not_less)
    have kb: "0 < k" "k < 32768" using k(1) by (simp_all add: H_def)
    have before: "\<forall>j. 0 < j \<and> j < k \<longrightarrow> prng_successor nt j \<noteq> 0 \<and> prng_successor 0 j \<noteq> nt"
      using k(2) kb unfolding H_def by auto
    have hit: "prng_successor nt k = 0 \<or> prng_successor 0 k = nt" using k(1) by (simp add: H_def)
    have "dist_nt nt 0 = (if prng_successor nt k = 0 then int k else - int k)"
      by (rule dist_nt_first_hit [OF False kb before hit])
    then show ?thesis using k16 by (simp add: s17)
  qed
qed

text \<open>
  C9 (as amended). For a nonce \<open>nt\<close> whose LFSR register, the low 16 bits
  \<open>nt & 0xFFFF\<close>, is not 0, and every \<open>k < 32768\<close>,
  \<open>dist_nt(nt, prng_successor(nt, k)) = k\<close>. For any two nonces \<open>a\<close> and \<open>b\<close> whose
  distance is valid in both directions, \<open>dist_nt(a, b) = - dist_nt(b, a)\<close>. And
  \<open>dist_nt\<close> returns -99999 when neither nonce is reached from the other within 32767
  steps (zero steps included).
\<close>

theorem dist_nt_properties:
  "(nt AND 0xFFFF \<noteq> 0 \<and> k < 32768 \<longrightarrow> dist_nt nt (prng_successor nt k) = int k)
   \<and> (dist_nt a b \<noteq> -99999 \<and> dist_nt b a \<noteq> -99999 \<longrightarrow> dist_nt a b = - dist_nt b a)
   \<and> ((\<forall>i<32768. prng_successor c i \<noteq> d \<and> prng_successor d i \<noteq> c)
      \<longrightarrow> dist_nt c d = -99999)"
  using dist_nt_successor_reg [of nt k] dist_nt_antisym_all [of a b] dist_nt_no_hit [of c d]
  by blast

text \<open>
  The three parts at concrete nonces: \<open>0x12345678\<close> and its third successor
  \<open>0x82C60A6F\<close>, in both directions, and two nonces that both run into the all-zero
  state without meeting each other.
\<close>

theorem dist_nt_properties_witness:
  "(0x12345678 :: u32) AND 0xFFFF \<noteq> 0
   \<and> prng_successor 0x12345678 3 = 0x82C60A6F
   \<and> dist_nt 0x12345678 0x82C60A6F = 3
   \<and> dist_nt 0x82C60A6F 0x12345678 = - 3
   \<and> dist_nt 0x12345678 0x82C60A6F = - dist_nt 0x82C60A6F 0x12345678
   \<and> dist_nt 0x05000000 0x03000000 = -99999"
proof -
  have r: "(0x12345678 :: u32) AND 0xFFFF \<noteq> 0"
    by simp
  have s: "prng_successor 0x12345678 3 = 0x82C60A6F"
    by code_simp
  have o: "prng_successor 0x82C60A6F 1 \<noteq> 0x12345678" "prng_successor 0x82C60A6F 2 \<noteq> 0x12345678"
    "prng_successor 0x82C60A6F 3 \<noteq> 0x12345678"
    "prng_successor 0x12345678 1 \<noteq> 0x82C60A6F" "prng_successor 0x12345678 2 \<noteq> 0x82C60A6F"
    by code_simp+
  have before: "\<forall>j. 0 < j \<and> j < 3 \<longrightarrow>
      prng_successor 0x82C60A6F j \<noteq> 0x12345678 \<and> prng_successor 0x12345678 j \<noteq> 0x82C60A6F"
  proof (intro allI impI)
    fix j :: nat assume "0 < j \<and> j < 3"
    then have "j = 1 \<or> j = 2" by linarith
    then show "prng_successor 0x82C60A6F j \<noteq> 0x12345678 \<and> prng_successor 0x12345678 j \<noteq> 0x82C60A6F"
      using o by auto
  qed
  have e2: "dist_nt 0x82C60A6F 0x12345678 = - 3"
    using dist_nt_first_hit [of "0x82C60A6F" "0x12345678" 3, OF _ _ _ before] s o(3) by simp
  have z: "prng_loop 3 (SWAPENDIAN 0x05000000) = 0" "prng_loop 3 (SWAPENDIAN 0x03000000) = 0"
    by code_simp+
  have w: "prng_successor 0x05000000 1 \<noteq> 0x03000000" "prng_successor 0x03000000 1 \<noteq> 0x05000000"
    "prng_successor 0x05000000 2 \<noteq> 0x03000000" "prng_successor 0x03000000 2 \<noteq> 0x05000000"
    by code_simp+
  have u: "\<forall>i<32768. prng_successor 0x05000000 i \<noteq> 0x03000000 \<and> prng_successor 0x03000000 i \<noteq> 0x05000000"
  proof (intro allI impI)
    fix i :: nat
    consider "i = 0" | "i = 1" | "i = 2" | "3 \<le> i" by linarith
    then show "prng_successor 0x05000000 i \<noteq> 0x03000000 \<and> prng_successor 0x03000000 i \<noteq> 0x05000000"
    proof cases
      case 1 then show ?thesis by simp
    next
      case 2 then show ?thesis using w by simp
    next
      case 3 then show ?thesis using w by simp
    next
      case 4
      then show ?thesis
        using prng_successor_dies [OF z(1), of i] prng_successor_dies [OF z(2), of i] by simp
    qed
  qed
  note t = dist_nt_properties [of "0x12345678" 3 "0x12345678" "0x82C60A6F" "0x05000000" "0x03000000"]
  have e1: "dist_nt 0x12345678 0x82C60A6F = 3"
    using t [THEN conjunct1] r by (simp add: s)
  have a: "dist_nt 0x12345678 0x82C60A6F = - dist_nt 0x82C60A6F 0x12345678"
    using t [THEN conjunct2, THEN conjunct1] by (simp add: e1 e2)
  have n: "dist_nt 0x05000000 0x03000000 = -99999"
    using t [THEN conjunct2, THEN conjunct2] u by blast
  show ?thesis
    using r s e1 e2 a n by simp
qed

text \<open>
  C9 as stated fails for nonces whose register is 0. The LFSR maps the all-zero state to
  itself, so the successor of 0 is 0 and the distance found is 0, not 1; and
  \<open>0x00010000\<close> reaches 0 after 9 steps, so the distance to its 12th successor is found
  as 9.
\<close>

theorem dist_nt_successor_counterexample:
  "(1 :: nat) < 32768 \<and> prng_successor 0 1 = 0
   \<and> dist_nt 0 (prng_successor 0 1) = 0
   \<and> dist_nt 0 (prng_successor 0 1) \<noteq> int 1
   \<and> (12 :: nat) < 32768 \<and> prng_successor 0x00010000 12 = 0
   \<and> dist_nt 0x00010000 (prng_successor 0x00010000 12) = 9
   \<and> dist_nt 0x00010000 (prng_successor 0x00010000 12) \<noteq> int 12"
proof -
  have z: "prng_loop 9 (SWAPENDIAN 0x00010000) = 0"
    by code_simp
  have s12: "prng_successor 0x00010000 12 = 0"
    by (rule prng_successor_dies [OF z]) simp
  have s9: "prng_successor 0x00010000 9 = 0"
    by (rule prng_successor_dies [OF z]) simp
  have o: "prng_successor 0x00010000 1 \<noteq> 0" "prng_successor 0x00010000 2 \<noteq> 0"
    "prng_successor 0x00010000 3 \<noteq> 0" "prng_successor 0x00010000 4 \<noteq> 0"
    "prng_successor 0x00010000 5 \<noteq> 0" "prng_successor 0x00010000 6 \<noteq> 0"
    "prng_successor 0x00010000 7 \<noteq> 0" "prng_successor 0x00010000 8 \<noteq> 0"
    by code_simp+
  have before: "\<forall>j. 0 < j \<and> j < 9 \<longrightarrow>
      prng_successor 0x00010000 j \<noteq> 0 \<and> prng_successor 0 j \<noteq> 0x00010000"
  proof (intro allI impI)
    fix j :: nat assume "0 < j \<and> j < 9"
    then have "j = 1 \<or> j = 2 \<or> j = 3 \<or> j = 4 \<or> j = 5 \<or> j = 6 \<or> j = 7 \<or> j = 8" by linarith
    then show "prng_successor 0x00010000 j \<noteq> 0 \<and> prng_successor 0 j \<noteq> 0x00010000"
      using o by auto
  qed
  have d9: "dist_nt 0x00010000 0 = 9"
    using dist_nt_first_hit [of "0x00010000" 0 9, OF _ _ _ before] s9 by simp
  show ?thesis
    by (simp add: s12 d9) (simp add: dist_nt_def)
qed

lemmas emu_cmd_defs =
  ISO14443A_CMD_REQA_def ISO14443A_CMD_WUPA_def ISO14443A_CMD_ANTICOLL_OR_SELECT_def
  ISO14443A_CMD_ANTICOLL_OR_SELECT_2_def ISO14443A_CMD_ANTICOLL_OR_SELECT_3_def
  ISO14443A_CMD_PPS_def ISO14443A_CMD_READBLOCK_def ISO14443A_CMD_HALT_def ISO14443A_CMD_RATS_def
  MIFARE_ULEV1_FASTREAD_def MIFARE_ULC_WRITE_def MIFARE_ULC_COMP_WRITE_def MIFARE_ULEV1_READSIG_def
  MIFARE_ULEV1_READ_CNT_def MIFARE_ULEV1_INCR_CNT_def MIFARE_ULEV1_CHECKTEAR_def
  MIFARE_ULEV1_VERSION_def MFDES_GET_VERSION_def MIFARE_AUTH_KEYA_def MIFARE_AUTH_KEYB_def
  MIFARE_ULC_AUTH_1_def MIFARE_ULC_AUTH_2_def MIFARE_ULEV1_AUTH_def MIFARE_ULEV1_VCSL_def

lemma select_branch_READBLOCK:
  "receivedCmd ! 0 = 0x30 \<Longrightarrow> select_branch order 4 tagType receivedCmd = BR_READBLOCK"
  by (simp add: select_branch_def emu_cmd_defs)

lemma select_branch_ULC_AUTH_2:
  "receivedCmd ! 0 = 0xAF \<Longrightarrow> select_branch order 19 13 receivedCmd = BR_ULC_AUTH_2"
  by (simp add: select_branch_def emu_cmd_defs)

lemma emlGet_in_range:
  "offset + n \<le> length em \<Longrightarrow> n \<le> length out \<Longrightarrow>
     emlGet em out offset n = take n (drop offset em) @ drop n out"
  by (simp add: emlGet_def memcpy_at_def)

lemma AddCrc14A_append:
  "length d = n \<Longrightarrow>
     AddCrc14A (d @ [x, y]) n = d @ [ucast (crc14a d AND 0xFF), ucast (drop_bit 8 (crc14a d))]"
  by (simp add: AddCrc14A_def Let_def list_update_append)

lemma READBLOCK_frame:
  assumes "start + 16 \<le> length em"
  shows "AddCrc14A (emlGet em (replicate 18 0) start 16) 16 =
     take 16 (drop start em) @ [ucast (crc14a (take 16 (drop start em)) AND 0xFF),
        ucast (drop_bit 8 (crc14a (take 16 (drop start em))))]"
proof -
  have e: "emlGet em (replicate 18 0) start 16 = take 16 (drop start em) @ [0, 0]"
    using assms by (simp add: emlGet_in_range eval_nat_numeral)
  have l: "length (take 16 (drop start em)) = 16" using assms by (auto simp add: min_def)
  show ?thesis unfolding e by (rule AddCrc14A_append [OF l])
qed

text \<open>
  C7. In tag emulation of an Ultralight or NTAG profile (\<open>tagType\<close> 2, 7 or 13) a
  4-byte command that starts with \<open>0x30\<close> reaches the READ branch, whatever the state
  \<open>order\<close>. If its block number exceeds \<open>pages\<close>, the only answer is the 4-bit frame
  \<open>CARD_NACK_IV = 0x0\<close> and \<open>emlGet\<close> is not called. Otherwise the answer is the 16
  bytes of emulator memory at offset \<open>4 * block + MFU_DUMP_PREFIX_LENGTH\<close>, the place of
  page \<open>block\<close> behind the dump header, followed by the two CRC bytes.
\<close>

theorem READBLOCK_ultralight:
  assumes "tagType = 2 \<or> tagType = 7 \<or> tagType = 13"
    and "receivedCmd ! 0 = 0x30"
  shows "select_branch order 4 tagType receivedCmd = BR_READBLOCK
    \<and> (receivedCmd ! 1 > pages \<longrightarrow>
          rb_sent (handle_READBLOCK tagType pages exitAfterNReads numReads em receivedCmd)
            = [EmSend4bit 0x0]
        \<and> rb_emlGet (handle_READBLOCK tagType pages exitAfterNReads numReads em receivedCmd) = [])
    \<and> (receivedCmd ! 1 \<le> pages \<and> unat (receivedCmd ! 1) * 4 + 56 + 16 \<le> length em \<longrightarrow>
          rb_sent (handle_READBLOCK tagType pages exitAfterNReads numReads em receivedCmd)
            = [EmSendCmd (take 16 (drop (unat (receivedCmd ! 1) * 4 + 56) em)
                 @ [ucast (crc14a (take 16 (drop (unat (receivedCmd ! 1) * 4 + 56) em)) AND 0xFF),
                    ucast (drop_bit 8 (crc14a (take 16 (drop (unat (receivedCmd ! 1) * 4 + 56) em))))])]
        \<and> rb_emlGet (handle_READBLOCK tagType pages exitAfterNReads numReads em receivedCmd)
            = [(unat (receivedCmd ! 1) * 4 + 56, 16)])"
proof -
  let ?b = "receivedCmd ! 1"
  let ?start = "unat ?b * 4 + 56"
  have br: "select_branch order 4 tagType receivedCmd = BR_READBLOCK"
    by (rule select_branch_READBLOCK [OF assms(2)])
  have nack: "?b > pages \<longrightarrow>
      rb_sent (handle_READBLOCK tagType pages exitAfterNReads numReads em receivedCmd) = [EmSend4bit 0x0]
      \<and> rb_emlGet (handle_READBLOCK tagType pages exitAfterNReads numReads em receivedCmd) = []"
    using assms(1) by (auto simp add: handle_READBLOCK_def Let_def CARD_NACK_IV_def)
  have rd: "?b \<le> pages \<and> ?start + 16 \<le> length em \<longrightarrow>
      rb_sent (handle_READBLOCK tagType pages exitAfterNReads numReads em receivedCmd)
            = [EmSendCmd (take 16 (drop ?start em)
                 @ [ucast (crc14a (take 16 (drop ?start em)) AND 0xFF),
                    ucast (drop_bit 8 (crc14a (take 16 (drop ?start em))))])]
        \<and> rb_emlGet (handle_READBLOCK tagType pages exitAfterNReads numReads em receivedCmd)
            = [(?start, 16)]"
  proof (intro impI)
    assume h: "?b \<le> pages \<and> ?start + 16 \<le> length em"
    from h have h1: "?b \<le> pages" and h2: "?start + 16 \<le> length em" by blast+
    have np: "\<not> pages < ?b" using h1 by (rule leD)
    show "rb_sent (handle_READBLOCK tagType pages exitAfterNReads numReads em receivedCmd)
            = [EmSendCmd (take 16 (drop ?start em)
                 @ [ucast (crc14a (take 16 (drop ?start em)) AND 0xFF),
                    ucast (drop_bit 8 (crc14a (take 16 (drop ?start em))))])]
        \<and> rb_emlGet (handle_READBLOCK tagType pages exitAfterNReads numReads em receivedCmd)
            = [(?start, 16)]"
      using assms(1) np READBLOCK_frame [OF h2]
      by (auto simp add: handle_READBLOCK_def Let_def MFU_DUMP_PREFIX_LENGTH_def MIFARE_BLOCK_SIZE_def
          CRC16_SIZE_def)
  qed
  show ?thesis using br nack rd by blast
qed


text \<open>
  The scenario of the spec: a tag with 16 pages answers \<open>{0x30, 0x20}\<close> with the 4-bit
  NACK, and \<open>{0x30, 0x04}\<close> with the sixteen bytes from page 4 on and their CRC.
\<close>

theorem READBLOCK_ultralight_witness:
  "select_branch ORDER_NONE 4 2 [0x30, 0x20, 0x00, 0x00] = BR_READBLOCK
   \<and> rb_sent (handle_READBLOCK 2 16 0 0 em_example [0x30, 0x20, 0x00, 0x00]) = [EmSend4bit 0x0]
   \<and> rb_emlGet (handle_READBLOCK 2 16 0 0 em_example [0x30, 0x20, 0x00, 0x00]) = []
   \<and> rb_sent (handle_READBLOCK 2 16 0 0 em_example [0x30, 0x04, 0x00, 0x00]) =
        [EmSendCmd [0xDE, 0xAD, 0xBE, 0xEF, 0x04, 0x11, 0x22, 0x33, 0x44, 0x55, 0x66, 0x88,
                    0xCA, 0xFE, 0xF0, 0x0D, 0x89, 0x2D]]
   \<and> rb_emlGet (handle_READBLOCK 2 16 0 0 em_example [0x30, 0x04, 0x00, 0x00]) = [(72, 16)]"
proof -
  have len: "length em_example = 96"
    by (simp add: em_example_def)
  have page: "take 16 (drop 72 em_example) =
      [0xDE, 0xAD, 0xBE, 0xEF, 0x04, 0x11, 0x22, 0x33, 0x44, 0x55, 0x66, 0x88, 0xCA, 0xFE, 0xF0, 0x0D]"
    by (simp add: em_example_def)
  have a: "(2 :: u8) = 2 \<or> (2 :: u8) = 7 \<or> (2 :: u8) = 13" by simp
  have c: "crc14a [0xDE, 0xAD, 0xBE, 0xEF, 0x04, 0x11, 0x22, 0x33, 0x44, 0x55, 0x66, 0x88,
      0xCA, 0xFE, 0xF0, 0x0D] = 0x2D89"
    by (simp add: crc14a_def update_crc16_def Let_def)
  note t1 = READBLOCK_ultralight [OF a, of "[0x30, 0x20, 0x00, 0x00]" ORDER_NONE 16 0 0 em_example]
  note t2 = READBLOCK_ultralight [OF a, of "[0x30, 0x04, 0x00, 0x00]" ORDER_NONE 16 0 0 em_example]
  have b1: "select_branch ORDER_NONE 4 2 [0x30, 0x20, 0x00, 0x00] = BR_READBLOCK"
    using t1 by simp
  have b2: "rb_sent (handle_READBLOCK 2 16 0 0 em_example [0x30, 0x20, 0x00, 0x00]) = [EmSend4bit 0x0]
     \<and> rb_emlGet (handle_READBLOCK 2 16 0 0 em_example [0x30, 0x20, 0x00, 0x00]) = []"
    using t1 by simp
  have b3: "rb_sent (handle_READBLOCK 2 16 0 0 em_example [0x30, 0x04, 0x00, 0x00]) =
        [EmSendCmd [0xDE, 0xAD, 0xBE, 0xEF, 0x04, 0x11, 0x22, 0x33, 0x44, 0x55, 0x66, 0x88,
                    0xCA, 0xFE, 0xF0, 0x0D, 0x89, 0x2D]]
     \<and> rb_emlGet (handle_READBLOCK 2 16 0 0 em_example [0x30, 0x04, 0x00, 0x00]) = [(72, 16)]"
    using t2 by (simp add: len page c)
  show ?thesis using b1 b2 b3 by blast
qed

text \<open>
  C8, evaluated on the code. A 19-byte command \<open>0xAF ...\<close> to a UL-C tag reaches the
  AUTH part 2 branch. The branch leaves \<open>response_n = 1 + 16 + 2 = 19\<close>, and the frame
  that was prepared last, the one \<open>p_response\<close> carries to \<open>EmSendPrecompiledCmd\<close>,
  is the first 19 bytes of the response buffer: the 11-byte answer 0x00, E(K, rol(RndA)),
  CRC, followed by six bytes left in the buffer and a second CRC. The state returns to
  \<open>ORDER_NONE\<close>. This holds for every key, IV, cipher and buffer content.
\<close>

theorem ULC_AUTH_2_response:
  "select_branch order 19 13 (0xAF # rest) = BR_ULC_AUTH_2
   \<and> dr_response_n (handle_ULC_AUTH_2 tdes_nxp_receive tdes_nxp_send (0xAF # rest) ulc_key ulc_iv ulc_part2 response) = 19
   \<and> dr_response_n (handle_ULC_AUTH_2 tdes_nxp_receive tdes_nxp_send (0xAF # rest) ulc_key ulc_iv ulc_part2 response) \<noteq> 11
   \<and> dr_order (handle_ULC_AUTH_2 tdes_nxp_receive tdes_nxp_send (0xAF # rest) ulc_key ulc_iv ulc_part2 response) = ORDER_NONE
   \<and> last (dr_prepared (handle_ULC_AUTH_2 tdes_nxp_receive tdes_nxp_send (0xAF # rest) ulc_key ulc_iv ulc_part2 response))
       = take 19 (dr_response (handle_ULC_AUTH_2 tdes_nxp_receive tdes_nxp_send (0xAF # rest) ulc_key ulc_iv ulc_part2 response))"
  by (simp add: select_branch_ULC_AUTH_2 handle_ULC_AUTH_2_def Let_def split: prod.splits)

end
